theory Spec2Isabelle
  imports Complex_Main "HOL-Library.Word"
begin

text \<open>
  A shallow embedding of the NSFW moderation service: the statistics counters,
  image acquisition, the mocked inference path, the single, batch and detect scan
  operations of \<^verbatim>\<open>NSFWService\<close>, the readiness handler and the start of
  \<^verbatim>\<open>main\<close>, and the per-client rate limiter of \<^verbatim>\<open>RateLimitMiddleware\<close>.
  State is passed explicitly; errors and panics are values.
\<close>

section \<open>Machine integers and Go slices\<close>

text \<open>
  The counters of the service are Go \<^verbatim>\<open>int64\<close> values. They are modelled as
  integers with the two's-complement wrap-around written out: every arithmetic
  result is passed through \<open>wrap64\<close>.
\<close>

definition wrap64 :: "int \<Rightarrow> int" where
  "wrap64 x = (x + 2 ^ 63) mod 2 ^ 64 - 2 ^ 63"

definition in_int64 :: "int \<Rightarrow> bool" where
  "in_int64 x \<longleftrightarrow> - (2 ^ 63) \<le> x \<and> x < 2 ^ 63"

text \<open>Go's integer division truncates towards zero.\<close>

definition go_div :: "int \<Rightarrow> int \<Rightarrow> int" where
  "go_div a b = sgn a * sgn b * (\<bar>a\<bar> div \<bar>b\<bar>)"

type_synonym byte = "8 word"

text \<open>
  A Go byte slice is a window on a backing array: \<open>sl_array\<close> is the backing
  array from the first element of the slice up to its capacity, \<open>sl_len\<close> the
  length of the slice. \<^verbatim>\<open>len(s)\<close> is \<open>sl_len s\<close>, \<^verbatim>\<open>cap(s)\<close> is
  \<open>length (sl_array s)\<close>.
\<close>

record byteslice =
  sl_array :: "byte list"
  sl_len :: nat

definition cap :: "byteslice \<Rightarrow> nat" where
  "cap s = length (sl_array s)"

text \<open>
  The slice expression \<^verbatim>\<open>s[:n]\<close>. For a slice operand Go bounds the upper
  index by the capacity, not by the length; beyond the capacity the expression
  panics (slice bounds out of range), which is \<open>None\<close> here.
\<close>

definition reslice_to :: "nat \<Rightarrow> byteslice \<Rightarrow> byte list option" where
  "reslice_to n s = (if n \<le> cap s then Some (take n (sl_array s)) else None)"

section \<open>Statistics\<close>

text \<open>
  \<^verbatim>\<open>type Stats struct { TotalScans int64; NSFWDetected int64;
  TotalProcessingTime time.Duration }\<close>; a \<^verbatim>\<open>time.Duration\<close> is an
  \<^verbatim>\<open>int64\<close> count of nanoseconds.
\<close>

record Stats =
  TotalScans :: int
  NSFWDetected :: int
  TotalProcessingTime :: int

definition Millisecond :: int where
  "Millisecond = 1000000"

definition updateStats :: "int \<Rightarrow> bool \<Rightarrow> Stats \<Rightarrow> Stats" where
  "updateStats processingTimeMs isNSFW st =
     (let st1 = st\<lparr>TotalScans := wrap64 (TotalScans st + 1)\<rparr>;
          st2 = st1\<lparr>TotalProcessingTime :=
                  wrap64 (TotalProcessingTime st1 + wrap64 (processingTimeMs * Millisecond))\<rparr>
      in if isNSFW then st2\<lparr>NSFWDetected := wrap64 (NSFWDetected st2 + 1)\<rparr> else st2)"

definition updateTotalScans :: "int \<Rightarrow> int \<Rightarrow> Stats \<Rightarrow> Stats" where
  "updateTotalScans count totalProcessingTimeMs st =
     (let st1 = st\<lparr>TotalScans := wrap64 (TotalScans st + count)\<rparr>
      in st1\<lparr>TotalProcessingTime :=
              wrap64 (TotalProcessingTime st1 + wrap64 (totalProcessingTimeMs * Millisecond))\<rparr>)"

record StatsResponse =
  total_scans :: int
  nsfw_detected :: int
  avg_response_time_ms :: real

text \<open>
  \<^verbatim>\<open>GetStats\<close> only reads the counters. \<^verbatim>\<open>Duration.Milliseconds()\<close> is the
  truncating division of the nanosecond count by \<open>10^6\<close>; the float64 quotient is
  written as a quotient of reals.
\<close>

definition GetStats :: "Stats \<Rightarrow> StatsResponse \<times> Stats" where
  "GetStats st =
     (let avgResponseTimeMs =
            (if TotalScans st > 0
             then real_of_int (go_div (TotalProcessingTime st) Millisecond)
                    / real_of_int (TotalScans st)
             else 0)
      in (\<lparr>total_scans = TotalScans st, nsfw_detected = NSFWDetected st,
           avg_response_time_ms = avgResponseTimeMs\<rparr>, st))"

text \<open>The invariant of the counters named by the specification.\<close>

definition stats_inv :: "Stats \<Rightarrow> bool" where
  "stats_inv st \<longleftrightarrow> NSFWDetected st \<le> TotalScans st"

section \<open>Requests, responses and errors\<close>

record ScanRequest =
  Model :: string
  ImageBase64 :: string
  ImageURL :: string

record BatchImageItem =
  ID :: string
  item_ImageBase64 :: string
  item_ImageURL :: string

record BatchScanRequest =
  batch_Model :: string
  Images :: "BatchImageItem list"

record ScanResponse =
  resp_Model :: string
  NSFWScore :: real
  SafeScore :: real
  IsNSFW :: bool
  Confidence :: real
  ProcessingTimeMs :: int

record BatchScanResult =
  result_ID :: string
  result_NSFWScore :: real
  result_IsNSFW :: bool
  result_ProcessingTimeMs :: int

text \<open>
  The errors of the service, one constructor per error message of the source;
  the wrapping errors (\<^verbatim>\<open>fmt.Errorf("...: %w", err)\<close>) carry the error they wrap.
  In the vocabulary of the specification: \<open>DetectionUnsupported\<close> is
  UnsupportedOperation, \<open>FileSizeExceeds\<close> is PayloadTooLarge.
\<close>

datatype error =
    ModelNotFound string
  | DetectionUnsupported string
  | MissingImageSource
  | Base64DecodeFailed
  | FileSizeExceeds int
  | CreateRequestFailed
  | DownloadFailed
  | DownloadStatus int
  | ReadBodyFailed
  | FailedToGetImageData error
  | InvalidImageFormat
  | InferenceFailed error
  | ContextErr
  | RateLimitExceeded
  | OnnxModelNotFound string
  | InsufficientOutput
  | PostprocessingFailed error

text \<open>A Go call either returns or panics.\<close>

datatype 'a go_result = Return 'a | Panic

section \<open>The world outside the service\<close>

text \<open>
  Every call that leaves the repository (the clock, the base64 decoder, the HTTP
  client, the image decoder, the request context, the token bucket, standard
  input, the file system) is logged as an \<open>event\<close>, and the answers of the
  world are the fields of \<open>env\<close>. An answer that can change from one call to the
  next is a function of the events logged so far.
\<close>

datatype event =
    EvNow
  | EvDecodeString string
  | EvHttpDo string
  | EvDecodeConfig
  | EvCtxDone
  | EvLimiterAllow
  | EvStdinDecode

text \<open>
  An HTTP response: its status code, its declared content length (\<open>-1\<close> when
  unknown) and, for a byte limit \<open>n\<close>, the result of
  \<^verbatim>\<open>io.ReadAll(io.LimitReader(resp.Body, n))\<close> (\<open>None\<close> is a read error).
\<close>

datatype http_response =
  HttpResponse (StatusCode: int) (ContentLength: int) (ReadAll: "int \<Rightarrow> byteslice option")

record env =
  Now :: "event list \<Rightarrow> int"
  DecodeString :: "string \<Rightarrow> byteslice option"
  NewRequest :: "string \<Rightarrow> bool"
  client_Do :: "event list \<Rightarrow> string \<Rightarrow> http_response option"
  DecodeConfig :: "byte list \<Rightarrow> bool"
  ctx_Done :: "event list \<Rightarrow> bool"
  limiter_Allow :: "event list \<Rightarrow> bool"
  stdin_Decode :: "event list \<Rightarrow> bool"
  filepath_Join :: "string \<Rightarrow> string \<Rightarrow> string"
  os_Stat :: "string \<Rightarrow> bool"

section \<open>Configuration and the model registry\<close>

record Config =
  Port :: string
  APIKey :: string
  NSFWThreshold :: real
  MaxFileSizeMB :: int
  EnableGPU :: bool
  LogLevel :: string
  ModelDir :: string

text \<open>
  An \<^verbatim>\<open>ONNXModel\<close> holds two function references; \<open>processing\<close> names the pair
  that \<^verbatim>\<open>loadModels\<close> stores.
\<close>

datatype processing = Standard | NudeNet

record ONNXModel =
  Name :: string
  Path :: string
  Processing :: processing

text \<open>
  The state of \<^verbatim>\<open>NSFWService\<close>: its configuration, the model map of its
  \<^verbatim>\<open>ONNXRuntimeService\<close> (a Go map, here the list of its entries in the order
  \<^verbatim>\<open>range\<close> visits them), its counters, and the log of the calls it has made.
\<close>

record NSFWService =
  config :: Config
  models :: "(string \<times> ONNXModel) list"
  stats :: Stats
  trace :: "event list"

definition modelFiles :: "(string \<times> string) list" where
  "modelFiles =
     [(''mobilenetv2-7'', ''mobilenetv2-7.onnx''),
      (''nsfw_squeezenet'', ''nsfw_squeezenet.onnx''),
      (''NudeNet-320n'', ''NudeNet-320n.onnx''),
      (''NudeNet-640m'', ''NudeNet-640m.onnx'')]"

definition processing_of :: "string \<Rightarrow> processing" where
  "processing_of modelName =
     (if modelName = ''mobilenetv2-7'' \<or> modelName = ''nsfw_squeezenet'' then Standard
      else if modelName = ''NudeNet-320n'' \<or> modelName = ''NudeNet-640m'' then NudeNet
      else Standard)"

fun loadModels_loop :: "env \<Rightarrow> string \<Rightarrow> (string \<times> string) list \<Rightarrow> (string \<times> ONNXModel) list" where
  "loadModels_loop e modelDir [] = []"
| "loadModels_loop e modelDir ((modelName, fileName) # rest) =
     (let modelPath = filepath_Join e modelDir fileName
      in if \<not> os_Stat e modelPath then loadModels_loop e modelDir rest
         else (modelName, \<lparr>Name = modelName, Path = modelPath,
                            Processing = processing_of modelName\<rparr>)
              # loadModels_loop e modelDir rest)"

definition loadModels :: "env \<Rightarrow> Config \<Rightarrow> (string \<times> ONNXModel) list" where
  "loadModels e cfg = loadModels_loop e (ModelDir cfg) modelFiles"

definition NewNSFWService :: "env \<Rightarrow> Config \<Rightarrow> NSFWService" where
  "NewNSFWService e cfg =
     \<lparr>config = cfg, models = loadModels e cfg,
      stats = \<lparr>TotalScans = 0, NSFWDetected = 0, TotalProcessingTime = 0\<rparr>,
      trace = []\<rparr>"

definition GetLoadedModels :: "NSFWService \<Rightarrow> string list" where
  "GetLoadedModels s = map fst (models s)"


section \<open>Image acquisition\<close>

definition log_event :: "event \<Rightarrow> NSFWService \<Rightarrow> NSFWService" where
  "log_event ev s = s\<lparr>trace := trace s @ [ev]\<rparr>"

definition time_Now :: "env \<Rightarrow> NSFWService \<Rightarrow> int \<times> NSFWService" where
  "time_Now e s = (Now e (trace s), log_event EvNow s)"

text \<open>\<^verbatim>\<open>time.Since(startTime).Milliseconds()\<close>, once the clock has been read.\<close>

definition since_ms :: "int \<Rightarrow> int \<Rightarrow> int" where
  "since_ms now startTime = go_div (wrap64 (now - startTime)) Millisecond"

text \<open>\<^verbatim>\<open>s.config.MaxFileSizeMB*1024*1024\<close>\<close>

definition max_bytes :: "NSFWService \<Rightarrow> int" where
  "max_bytes s = wrap64 (wrap64 (MaxFileSizeMB (config s) * 1024) * 1024)"

text \<open>
  \<^verbatim>\<open>if idx := strings.Index(base64Str, ","); idx != -1 { base64Str = base64Str[idx+1:] }\<close>
\<close>

definition strip_data_url :: "string \<Rightarrow> string" where
  "strip_data_url base64Str =
     (case dropWhile (\<lambda>c. c \<noteq> CHR '','') base64Str of
        [] \<Rightarrow> base64Str
      | _ # rest \<Rightarrow> rest)"

definition base64ToBytes ::
    "env \<Rightarrow> string \<Rightarrow> NSFWService \<Rightarrow> (error + byteslice) \<times> NSFWService" where
  "base64ToBytes e base64Str s =
     (let str = strip_data_url base64Str;
          s1 = log_event (EvDecodeString str) s
      in case DecodeString e str of
           None \<Rightarrow> (Inl Base64DecodeFailed, s1)
         | Some data \<Rightarrow>
             if int (sl_len data) > max_bytes s1
             then (Inl (FileSizeExceeds (MaxFileSizeMB (config s1))), s1)
             else (Inr data, s1))"

definition StatusOK :: int where
  "StatusOK = 200"

definition urlToBytes ::
    "env \<Rightarrow> string \<Rightarrow> NSFWService \<Rightarrow> (error + byteslice) \<times> NSFWService" where
  "urlToBytes e url s =
     (if \<not> NewRequest e url then (Inl CreateRequestFailed, s)
      else
        let s1 = log_event (EvHttpDo url) s
        in case client_Do e (trace s) url of
             None \<Rightarrow> (Inl DownloadFailed, s1)
           | Some resp \<Rightarrow>
               if StatusCode resp \<noteq> StatusOK
               then (Inl (DownloadStatus (StatusCode resp)), s1)
               else if ContentLength resp > max_bytes s1
               then (Inl (FileSizeExceeds (MaxFileSizeMB (config s1))), s1)
               else
                 (case ReadAll resp (wrap64 (max_bytes s1 + 1)) of
                    None \<Rightarrow> (Inl ReadBodyFailed, s1)
                  | Some data \<Rightarrow>
                      if int (sl_len data) > max_bytes s1
                      then (Inl (FileSizeExceeds (MaxFileSizeMB (config s1))), s1)
                      else (Inr data, s1)))"

definition getImageData ::
    "env \<Rightarrow> string \<Rightarrow> string \<Rightarrow> NSFWService \<Rightarrow> (error + byteslice) \<times> NSFWService" where
  "getImageData e base64Str urlStr s =
     (if base64Str \<noteq> [] then base64ToBytes e base64Str s
      else if urlStr \<noteq> [] then urlToBytes e urlStr s
      else (Inl MissingImageSource, s))"

text \<open>The events that acquire image bytes: a base64 decoding or an HTTP download.\<close>

fun is_acquisition :: "event \<Rightarrow> bool" where
  "is_acquisition (EvDecodeString _) = True"
| "is_acquisition (EvHttpDo _) = True"
| "is_acquisition _ = False"

definition acquisitions :: "NSFWService \<Rightarrow> event list" where
  "acquisitions s = filter is_acquisition (trace s)"

section \<open>Inference\<close>

definition postprocessingStandard :: "Config \<Rightarrow> real list \<Rightarrow> error + ScanResponse" where
  "postprocessingStandard cfg outputs =
     (if length outputs < 2 then Inl InsufficientOutput
      else
        let safeScore = outputs ! 0;
            nsfwScore = outputs ! 1;
            confidence = (if safeScore > nsfwScore then safeScore else nsfwScore);
            isNSFW = (nsfwScore \<ge> NSFWThreshold cfg)
        in Inr \<lparr>resp_Model = [], NSFWScore = nsfwScore, SafeScore = safeScore,
                 IsNSFW = isNSFW, Confidence = confidence, ProcessingTimeMs = 0\<rparr>)"

definition postprocessingNudeNet :: "Config \<Rightarrow> real list \<Rightarrow> error + ScanResponse" where
  "postprocessingNudeNet cfg outputs =
     Inr \<lparr>resp_Model = [], NSFWScore = 0.5, SafeScore = 0.5,
          IsNSFW = (0.5 \<ge> NSFWThreshold cfg), Confidence = 0.5, ProcessingTimeMs = 0\<rparr>"

fun Postprocessing :: "processing \<Rightarrow> Config \<Rightarrow> real list \<Rightarrow> error + ScanResponse" where
  "Postprocessing Standard = postprocessingStandard"
| "Postprocessing NudeNet = postprocessingNudeNet"

text \<open>
  \<^verbatim>\<open>preprocessAndRunInference\<close>: the token bucket is asked first, then the model is
  looked up, then an image is decoded from standard input. When that decoding
  fails the mock response is returned. Otherwise the image is preprocessed (both
  preprocessing functions return a tensor and a nil error for every image, and
  the tensor is not used), the model outputs are the constants \<open>[0.3, 0.7]\<close>,
  and the postprocessing function of the model builds the response.
\<close>

definition preprocessAndRunInference ::
    "env \<Rightarrow> string \<Rightarrow> byteslice \<Rightarrow> NSFWService \<Rightarrow> (error + ScanResponse) \<times> NSFWService" where
  "preprocessAndRunInference e modelName imageData s =
     (let s1 = log_event EvLimiterAllow s
      in if \<not> limiter_Allow e (trace s) then (Inl RateLimitExceeded, s1)
         else
           case map_of (models s1) modelName of
             None \<Rightarrow> (Inl (OnnxModelNotFound modelName), s1)
           | Some model \<Rightarrow>
               let s2 = log_event EvStdinDecode s1
               in if \<not> stdin_Decode e (trace s1)
                  then (Inr \<lparr>resp_Model = modelName, NSFWScore = 0.3, SafeScore = 0.7,
                              IsNSFW = (0.3 \<ge> NSFWThreshold (config s2)),
                              Confidence = 0.7, ProcessingTimeMs = 100\<rparr>, s2)
                  else
                    let outputs = [0.3, 0.7]
                    in case Postprocessing (Processing model) (config s2) outputs of
                         Inl err \<Rightarrow> (Inl (PostprocessingFailed err), s2)
                       | Inr response \<Rightarrow>
                           (Inr (response\<lparr>resp_Model := modelName, ProcessingTimeMs := 100\<rparr>),
                            s2))"

definition RunInference ::
    "env \<Rightarrow> string \<Rightarrow> byteslice \<Rightarrow> NSFWService \<Rightarrow> (error + ScanResponse) \<times> NSFWService" where
  "RunInference e modelName imageData s =
     (let (startTime, s1) = time_Now e s;
          s2 = log_event EvCtxDone s1
      in if ctx_Done e (trace s1) then (Inl ContextErr, s2)
         else
           case preprocessAndRunInference e modelName imageData s2 of
             (Inl err, s3) \<Rightarrow> (Inl err, s3)
           | (Inr result, s3) \<Rightarrow>
               let (now, s4) = time_Now e s3
               in (Inr (result\<lparr>ProcessingTimeMs := since_ms now startTime\<rparr>), s4))"

section \<open>The scan operations\<close>

definition record_stats :: "int \<Rightarrow> bool \<Rightarrow> NSFWService \<Rightarrow> NSFWService" where
  "record_stats processingTimeMs isNSFW s =
     s\<lparr>stats := updateStats processingTimeMs isNSFW (stats s)\<rparr>"

text \<open>
  The function deferred at the top of \<^verbatim>\<open>ScanImage\<close> and of \<^verbatim>\<open>DetectImage\<close>:
  it runs when the body returns and when it panics.
\<close>

definition deferred_updateStats :: "env \<Rightarrow> int \<Rightarrow> NSFWService \<Rightarrow> NSFWService" where
  "deferred_updateStats e startTime s =
     (let (now, s1) = time_Now e s;
          processingTime = since_ms now startTime
      in record_stats processingTime False s1)"

definition ScanImage_body ::
    "env \<Rightarrow> ScanRequest \<Rightarrow> NSFWService \<Rightarrow> (error + ScanResponse) go_result \<times> NSFWService" where
  "ScanImage_body e req s =
     (let modelExists = list_ex (\<lambda>modelName. modelName = Model req) (GetLoadedModels s)
      in if \<not> modelExists then (Return (Inl (ModelNotFound (Model req))), s)
         else
           case getImageData e (ImageBase64 req) (ImageURL req) s of
             (Inl err, s1) \<Rightarrow> (Return (Inl (FailedToGetImageData err)), s1)
           | (Inr imgData, s1) \<Rightarrow>
               (case reslice_to 512 imgData of
                  None \<Rightarrow> (Panic, s1)
                | Some header \<Rightarrow>
                    let s2 = log_event EvDecodeConfig s1
                    in if \<not> DecodeConfig e header then (Return (Inl InvalidImageFormat), s2)
                       else
                         case RunInference e (Model req) imgData s2 of
                           (Inl err, s3) \<Rightarrow> (Return (Inl (InferenceFailed err)), s3)
                         | (Inr response, s3) \<Rightarrow>
                             (Return (Inr response),
                              if IsNSFW response
                              then record_stats (ProcessingTimeMs response) True s3
                              else record_stats (ProcessingTimeMs response) False s3)))"

definition ScanImage ::
    "env \<Rightarrow> ScanRequest \<Rightarrow> NSFWService \<Rightarrow> (error + ScanResponse) go_result \<times> NSFWService" where
  "ScanImage e req s =
     (let (startTime, s0) = time_Now e s;
          (res, s1) = ScanImage_body e req s0
      in (res, deferred_updateStats e startTime s1))"

text \<open>\<^verbatim>\<open>strings.ToLower\<close> on the ASCII letters, and \<^verbatim>\<open>strings.HasPrefix\<close>.\<close>

definition ToLower_char :: "char \<Rightarrow> char" where
  "ToLower_char c =
     (let n = (of_char c :: nat) in if 65 \<le> n \<and> n \<le> 90 then char_of (n + 32) else c)"

definition ToLower :: "string \<Rightarrow> string" where
  "ToLower str = map ToLower_char str"

definition HasPrefix :: "string \<Rightarrow> string \<Rightarrow> bool" where
  "HasPrefix str pre \<longleftrightarrow> take (length pre) str = pre"

definition supports_detection :: "string \<Rightarrow> bool" where
  "supports_detection modelName \<longleftrightarrow> HasPrefix (ToLower modelName) ''nudenet''"

definition DetectImage_body ::
    "env \<Rightarrow> ScanRequest \<Rightarrow> NSFWService \<Rightarrow> (error + ScanResponse) \<times> NSFWService" where
  "DetectImage_body e req s =
     (let modelExists =
            list_ex (\<lambda>modelName. modelName = Model req \<and> supports_detection modelName)
              (GetLoadedModels s)
      in if \<not> modelExists then (Inl (DetectionUnsupported (Model req)), s)
         else
           case getImageData e (ImageBase64 req) (ImageURL req) s of
             (Inl err, s1) \<Rightarrow> (Inl (FailedToGetImageData err), s1)
           | (Inr imgData, s1) \<Rightarrow>
               (case RunInference e (Model req) imgData s1 of
                  (Inl err, s2) \<Rightarrow> (Inl (InferenceFailed err), s2)
                | (Inr response, s2) \<Rightarrow>
                    (Inr response,
                     if IsNSFW response
                     then record_stats (ProcessingTimeMs response) True s2
                     else record_stats (ProcessingTimeMs response) False s2)))"

definition DetectImage ::
    "env \<Rightarrow> ScanRequest \<Rightarrow> NSFWService \<Rightarrow> (error + ScanResponse) \<times> NSFWService" where
  "DetectImage e req s =
     (let (startTime, s0) = time_Now e s;
          (res, s1) = DetectImage_body e req s0
      in (res, deferred_updateStats e startTime s1))"

text \<open>
  One turn of the loop of \<^verbatim>\<open>ScanBatch\<close> over \<^verbatim>\<open>req.Images\<close>: \<open>None\<close> is a
  \<^verbatim>\<open>continue\<close> (the item is logged and dropped), \<open>Some result\<close> is the result
  appended to \<^verbatim>\<open>results\<close>.
\<close>

definition ScanBatch_item ::
    "env \<Rightarrow> string \<Rightarrow> BatchImageItem \<Rightarrow> NSFWService \<Rightarrow> BatchScanResult option \<times> NSFWService" where
  "ScanBatch_item e modelName imgReq s =
     (let (imgStartTime, s0) = time_Now e s;
          (got, s1) =
            (if item_ImageBase64 imgReq \<noteq> [] then base64ToBytes e (item_ImageBase64 imgReq) s0
             else if item_ImageURL imgReq \<noteq> [] then urlToBytes e (item_ImageURL imgReq) s0
             else (Inl MissingImageSource, s0))
      in case got of
           Inl err \<Rightarrow> (None, s1)
         | Inr imgData \<Rightarrow>
             (case RunInference e modelName imgData s1 of
                (Inl err, s2) \<Rightarrow> (None, s2)
              | (Inr response, s2) \<Rightarrow>
                  let result = \<lparr>result_ID = ID imgReq, result_NSFWScore = NSFWScore response,
                                 result_IsNSFW = IsNSFW response,
                                 result_ProcessingTimeMs = ProcessingTimeMs response\<rparr>
                  in (Some result,
                      if result_IsNSFW result
                      then record_stats (result_ProcessingTimeMs result) True s2
                      else record_stats (result_ProcessingTimeMs result) False s2)))"

fun ScanBatch_loop ::
    "env \<Rightarrow> string \<Rightarrow> BatchImageItem list \<Rightarrow> BatchScanResult list \<Rightarrow> NSFWService
       \<Rightarrow> BatchScanResult list \<times> NSFWService" where
  "ScanBatch_loop e modelName [] results s = (results, s)"
| "ScanBatch_loop e modelName (imgReq # rest) results s =
     (case ScanBatch_item e modelName imgReq s of
        (None, s1) \<Rightarrow> ScanBatch_loop e modelName rest results s1
      | (Some result, s1) \<Rightarrow> ScanBatch_loop e modelName rest (results @ [result]) s1)"

text \<open>
  The function deferred by \<^verbatim>\<open>ScanBatch\<close> reads the clock and does nothing else.
\<close>

definition ScanBatch_body ::
    "env \<Rightarrow> BatchScanRequest \<Rightarrow> int \<Rightarrow> NSFWService
       \<Rightarrow> (error + BatchScanResult list) \<times> NSFWService" where
  "ScanBatch_body e req startTime s =
     (let modelExists =
            list_ex (\<lambda>modelName. modelName = batch_Model req) (GetLoadedModels s)
      in if \<not> modelExists then (Inl (ModelNotFound (batch_Model req)), s)
         else
           let (results, s1) = ScanBatch_loop e (batch_Model req) (Images req) [] s;
               (now, s2) = time_Now e s1;
               totalProcessingTime = since_ms now startTime
           in (Inr results,
               s2\<lparr>stats := updateTotalScans (int (length results)) totalProcessingTime
                               (stats s2)\<rparr>))"

definition ScanBatch ::
    "env \<Rightarrow> BatchScanRequest \<Rightarrow> NSFWService \<Rightarrow> (error + BatchScanResult list) \<times> NSFWService" where
  "ScanBatch e req s =
     (let (startTime, s0) = time_Now e s;
          (res, s1) = ScanBatch_body e req startTime s0;
          (now, s2) = time_Now e s1
      in (res, s2))"

section \<open>Readiness and startup\<close>







section \<open>The rate limiter\<close>

text \<open>
  A \<^verbatim>\<open>time.Time\<close> is an integer count of nanoseconds since the zero time, so
  the zero value of \<^verbatim>\<open>BlockedUntil\<close> is \<open>0\<close>; a \<^verbatim>\<open>time.Duration\<close> is a count
  of nanoseconds.
\<close>

record Visitor =
  Requests :: "int list"
  BlockedUntil :: int

record RateLimitMiddleware =
  visitors :: "string \<rightharpoonup> Visitor"
  limit :: int
  window :: int
  blockWindow :: int

definition NewRateLimitMiddleware :: "int \<Rightarrow> int \<Rightarrow> int \<Rightarrow> RateLimitMiddleware" where
  "NewRateLimitMiddleware limit' window' blockWindow' =
     \<lparr>visitors = Map.empty, limit = limit', window = window', blockWindow = blockWindow'\<rparr>"

text \<open>\<open>Allowed\<close> is \<^verbatim>\<open>c.Next()\<close>; \<open>Blocked\<close> is the 429 response and \<^verbatim>\<open>c.Abort()\<close>.\<close>

datatype decision = Allowed | Blocked

text \<open>
  The handler of \<^verbatim>\<open>RateLimit\<close> for the client \<open>ip\<close>, under the mutex. It reads
  the clock up to three times: \<open>tCheck\<close> for the block check, \<open>now\<close> for the
  window, \<open>tBlock\<close> when it sets \<^verbatim>\<open>BlockedUntil\<close>.
\<close>

definition RateLimit ::
    "string \<Rightarrow> int \<Rightarrow> int \<Rightarrow> int \<Rightarrow> RateLimitMiddleware \<Rightarrow> decision \<times> RateLimitMiddleware" where
  "RateLimit ip tCheck now tBlock r =
     (let found = visitors r ip
      in if (case found of Some visitor \<Rightarrow> tCheck < BlockedUntil visitor | None \<Rightarrow> False)
         then (Blocked, r)
         else
           let visitor = (case found of Some visitor \<Rightarrow> visitor
                          | None \<Rightarrow> \<lparr>Requests = [], BlockedUntil = 0\<rparr>);
               cutoff = now - window r;
               newRequests = filter (\<lambda>reqTime. cutoff < reqTime) (Requests visitor);
               visitor1 = visitor\<lparr>Requests := newRequests\<rparr>
           in if int (length (Requests visitor1)) \<ge> limit r
              then (Blocked,
                    r\<lparr>visitors := (visitors r)
                         (ip \<mapsto> visitor1\<lparr>BlockedUntil := tBlock + blockWindow r\<rparr>)\<rparr>)
              else (Allowed,
                    r\<lparr>visitors := (visitors r)
                         (ip \<mapsto> visitor1\<lparr>Requests := Requests visitor1 @ [now]\<rparr>)\<rparr>))"

text \<open>One tick of \<^verbatim>\<open>cleanupOldEntries\<close>, under the mutex.\<close>

definition cleanupOldEntries :: "int \<Rightarrow> RateLimitMiddleware \<Rightarrow> RateLimitMiddleware" where
  "cleanupOldEntries now r =
     r\<lparr>visitors :=
         (\<lambda>ip. case visitors r ip of
                 None \<Rightarrow> None
               | Some visitor \<Rightarrow>
                   if length (Requests visitor) = 0 \<and> \<not> now < BlockedUntil visitor
                   then None else Some visitor)\<rparr>"

text \<open>
  The mutex serialises the handler calls and the ticks: a run of the limiter is a
  list of events, and its log pairs every request with the decision it got.
\<close>

datatype rl_event = Request string int int int | CleanupTick int

fun rl_run ::
    "RateLimitMiddleware \<Rightarrow> rl_event list \<Rightarrow> (rl_event \<times> decision) list \<times> RateLimitMiddleware" where
  "rl_run r [] = ([], r)"
| "rl_run r (CleanupTick now # evs) = rl_run (cleanupOldEntries now r) evs"
| "rl_run r (Request ip tCheck now tBlock # evs) =
     (let (d, r1) = RateLimit ip tCheck now tBlock r;
          (ds, r2) = rl_run r1 evs
      in ((Request ip tCheck now tBlock, d) # ds, r2))"

text \<open>The requests of \<open>ip\<close>; the time of an event (for a request: its first clock read).\<close>

fun request_of :: "string \<Rightarrow> rl_event \<Rightarrow> bool" where
  "request_of ip (Request ip' tCheck now tBlock) = (ip' = ip)"
| "request_of ip (CleanupTick now) = False"

fun event_time :: "rl_event \<Rightarrow> int" where
  "event_time (Request ip tCheck now tBlock) = tCheck"
| "event_time (CleanupTick now) = now"

fun request_now :: "rl_event \<Rightarrow> int option" where
  "request_now (Request ip tCheck now tBlock) = Some now"
| "request_now (CleanupTick now) = None"

text \<open>
  The admitted requests of \<open>ip\<close> in a log whose timestamp is later than \<open>c\<close>.
\<close>

fun admitted_after :: "string \<Rightarrow> int \<Rightarrow> rl_event \<times> decision \<Rightarrow> bool" where
  "admitted_after ip c (Request ip' tCheck now tBlock, d) = (ip' = ip \<and> d = Allowed \<and> c < now)"
| "admitted_after ip c (CleanupTick now, d) = False"

definition requests_of :: "RateLimitMiddleware \<Rightarrow> string \<Rightarrow> int list" where
  "requests_of r ip = (case visitors r ip of None \<Rightarrow> [] | Some visitor \<Rightarrow> Requests visitor)"

definition blocked_at :: "RateLimitMiddleware \<Rightarrow> string \<Rightarrow> int \<Rightarrow> bool" where
  "blocked_at r ip t =
     (case visitors r ip of None \<Rightarrow> False | Some visitor \<Rightarrow> t < BlockedUntil visitor)"

section \<open>Well-formed counters and concrete inputs\<close>

text \<open>The three counters are \<^verbatim>\<open>int64\<close> values.\<close>

definition stats_wf :: "Stats \<Rightarrow> bool" where
  "stats_wf st \<longleftrightarrow>
     in_int64 (TotalScans st) \<and> in_int64 (NSFWDetected st) \<and> in_int64 (TotalProcessingTime st)"

text \<open>
  A configuration with the default values of \<^verbatim>\<open>LoadConfig\<close>, and a world in
  which all four model files exist, the clock stands still, the token bucket
  allows every call, nothing can be decoded from standard input (so inference
  returns the mock response), every download fails, and the base64 decoder knows
  one string: \<^verbatim>\<open>"AAAA"\<close>, which \<^verbatim>\<open>base64.StdEncoding.DecodeString\<close> decodes
  into a slice of three zero bytes whose capacity is
  \<^verbatim>\<open>DecodedLen(4) = 3\<close>.
\<close>

definition example_config :: Config where
  "example_config =
     \<lparr>Port = ''8080'', APIKey = [], NSFWThreshold = 0.7, MaxFileSizeMB = 10,
      EnableGPU = False, LogLevel = ''info'', ModelDir = ''/models''\<rparr>"

definition three_zero_bytes :: byteslice where
  "three_zero_bytes = \<lparr>sl_array = [0, 0, 0], sl_len = 3\<rparr>"

definition example_env :: env where
  "example_env =
     \<lparr>Now = (\<lambda>tr. 0),
      DecodeString = (\<lambda>str. if str = ''AAAA'' then Some three_zero_bytes else None),
      NewRequest = (\<lambda>url. True),
      client_Do = (\<lambda>tr url. None),
      DecodeConfig = (\<lambda>header. True),
      ctx_Done = (\<lambda>tr. False),
      limiter_Allow = (\<lambda>tr. True),
      stdin_Decode = (\<lambda>tr. False),
      filepath_Join = (\<lambda>dir file. dir @ ''/'' @ file),
      os_Stat = (\<lambda>path. True)\<rparr>"

definition example_service :: NSFWService where
  "example_service = NewNSFWService example_env example_config"

text \<open>The same world with a token bucket that is empty, and with no model file.\<close>

definition limiter_denies :: env where
  "limiter_denies = example_env\<lparr>limiter_Allow := (\<lambda>tr. False)\<rparr>"


definition tiny_image_request :: ScanRequest where
  "tiny_image_request = \<lparr>Model = ''mobilenetv2-7'', ImageBase64 = ''AAAA'', ImageURL = []\<rparr>"

definition unknown_model_request :: ScanRequest where
  "unknown_model_request = \<lparr>Model = ''resnet'', ImageBase64 = ''AAAA'', ImageURL = []\<rparr>"

text \<open>A batch of three items; the second names no image source.\<close>

definition batch_item_1 :: BatchImageItem where
  "batch_item_1 = \<lparr>ID = ''1'', item_ImageBase64 = ''AAAA'', item_ImageURL = []\<rparr>"

definition batch_item_2 :: BatchImageItem where
  "batch_item_2 = \<lparr>ID = ''2'', item_ImageBase64 = [], item_ImageURL = []\<rparr>"

definition batch_item_3 :: BatchImageItem where
  "batch_item_3 = \<lparr>ID = ''3'', item_ImageBase64 = ''AAAA'', item_ImageURL = []\<rparr>"

definition example_batch :: BatchScanRequest where
  "example_batch =
     \<lparr>batch_Model = ''mobilenetv2-7'', Images = [batch_item_1, batch_item_2, batch_item_3]\<rparr>"

definition zero_stats :: Stats where
  "zero_stats = \<lparr>TotalScans = 0, NSFWDetected = 0, TotalProcessingTime = 0\<rparr>"

definition full_stats :: Stats where
  "full_stats = \<lparr>TotalScans = 2 ^ 63 - 1, NSFWDetected = 0, TotalProcessingTime = 0\<rparr>"

text \<open>
  The response of the mocked inference in the example world, where the clock
  stands still and the threshold is 0.7.
\<close>

definition mock_response :: "string \<Rightarrow> ScanResponse" where
  "mock_response m =
     \<lparr>resp_Model = m, NSFWScore = 0.3, SafeScore = 0.7, IsNSFW = False,
      Confidence = 0.7, ProcessingTimeMs = 0\<rparr>"

text \<open>
  The limiter of scenario A of the specification (limit 3, window 60, block
  3600; the unit of time does not matter), a client that sends three requests
  at the instants 0, 1 and 2, and what happens while it is blocked. A second
  limiter blocks for one unit of time only.
\<close>

definition scenario_limiter :: RateLimitMiddleware where
  "scenario_limiter = NewRateLimitMiddleware 3 60 3600"

definition short_block_limiter :: RateLimitMiddleware where
  "short_block_limiter = NewRateLimitMiddleware 3 60 1"

definition three_requests :: "rl_event list" where
  "three_requests =
     [Request ''10.0.0.1'' 0 0 0, Request ''10.0.0.1'' 1 1 1, Request ''10.0.0.1'' 2 2 2]"

definition during_block :: "rl_event list" where
  "during_block =
     [Request ''10.0.0.1'' 1800 1800 1800, Request ''10.0.0.2'' 1900 1900 1900,
      CleanupTick 3600, Request ''10.0.0.1'' 3602 3602 3602]"

definition other_traffic :: "rl_event list" where
  "other_traffic = [Request ''10.0.0.2'' 1900 1900 1900, CleanupTick 3600]"

text \<open>
  The number of recorded requests of a client that are later than \<open>c\<close>; all
  requests of a run were made at \<open>t\<close> or before; all events of a run happen
  before \<open>t\<close>; every request of the client in a log was blocked; a run holds no
  request of the client.
\<close>

definition count_after :: "int \<Rightarrow> RateLimitMiddleware \<Rightarrow> string \<Rightarrow> nat" where
  "count_after c r ip = length (filter (\<lambda>reqTime. c < reqTime) (requests_of r ip))"

definition requests_by :: "int \<Rightarrow> rl_event list \<Rightarrow> bool" where
  "requests_by t evs =
     list_all (\<lambda>ev. case request_now ev of None \<Rightarrow> True | Some now \<Rightarrow> now \<le> t) evs"

definition events_before :: "int \<Rightarrow> rl_event list \<Rightarrow> bool" where
  "events_before t evs = list_all (\<lambda>ev. event_time ev < t) evs"

definition all_blocked :: "string \<Rightarrow> (rl_event \<times> decision) list \<Rightarrow> bool" where
  "all_blocked ip lg = list_all (\<lambda>(ev, d). request_of ip ev \<longrightarrow> d = Blocked) lg"

definition no_request_of :: "string \<Rightarrow> rl_event list \<Rightarrow> bool" where
  "no_request_of ip evs = list_all (\<lambda>ev. \<not> request_of ip ev) evs"

section \<open>Properties of the counters\<close>

lemma wrap64_id: "in_int64 x \<Longrightarrow> wrap64 x = x"
  by (simp add: wrap64_def in_int64_def)

lemma in_int64_wrap64: "in_int64 (wrap64 x)"
proof -
  have "0 \<le> (x + 2 ^ 63) mod 2 ^ 64" "(x + 2 ^ 63) mod 2 ^ 64 < (2 ^ 64 :: int)"
    by simp_all
  then show ?thesis by (simp add: wrap64_def in_int64_def)
qed

lemma updateStats_TotalScans: "TotalScans (updateStats ms b st) = wrap64 (TotalScans st + 1)"
  by (simp add: updateStats_def Let_def)

lemma updateStats_NSFWDetected:
  "NSFWDetected (updateStats ms b st) = (if b then wrap64 (NSFWDetected st + 1) else NSFWDetected st)"
  by (simp add: updateStats_def Let_def)

lemma updateTotalScans_TotalScans:
  "TotalScans (updateTotalScans n ms st) = wrap64 (TotalScans st + n)"
  by (simp add: updateTotalScans_def Let_def)

lemma updateTotalScans_NSFWDetected:
  "NSFWDetected (updateTotalScans n ms st) = NSFWDetected st"
  by (simp add: updateTotalScans_def Let_def)

lemma updateStats_wf: "stats_wf st \<Longrightarrow> stats_wf (updateStats ms b st)"
  by (simp add: updateStats_def Let_def stats_wf_def in_int64_wrap64)

lemma updateTotalScans_wf: "stats_wf st \<Longrightarrow> stats_wf (updateTotalScans n ms st)"
  by (simp add: updateTotalScans_def Let_def stats_wf_def in_int64_wrap64)

text \<open>
  At the largest \<^verbatim>\<open>int64\<close> the increment of \<^verbatim>\<open>updateStats\<close> wraps around: the
  total becomes negative, so it decreases and falls below the detection count.
\<close>

theorem stats_invariant_overflow: 
  "stats_wf full_stats \<and> stats_inv full_stats
   \<and> TotalScans (updateStats 0 False full_stats) < TotalScans full_stats
   \<and> \<not> stats_inv (updateStats 0 False full_stats)"
  by (simp add: full_stats_def stats_wf_def stats_inv_def in_int64_def updateStats_def wrap64_def
      Let_def Millisecond_def)

text \<open>
  Claim C10, away from the overflow. For well-formed counters that satisfy the
  invariant, every operation of the statistics keeps the invariant (the detection
  count is at most the total) and does not decrease the total, provided the total
  stays below \<open>2^63\<close> and the count recorded by the batch aggregate is not
  negative (it is \<^verbatim>\<open>len(results)\<close>). The snapshot changes nothing.
\<close>

theorem stats_invariant_preserved:
  assumes wf: "stats_wf st" and inv: "stats_inv st"
    and cnt: "0 \<le> count"
    and room: "TotalScans st + 1 < 2 ^ 63" "TotalScans st + count < 2 ^ 63"
  shows "stats_inv (updateStats ms isNSFW st)
       \<and> TotalScans st \<le> TotalScans (updateStats ms isNSFW st)
       \<and> stats_inv (updateTotalScans count totalMs st)
       \<and> TotalScans st \<le> TotalScans (updateTotalScans count totalMs st)
       \<and> snd (GetStats st) = st"
proof -
  have t1: "wrap64 (TotalScans st + 1) = TotalScans st + 1"
    using wf room by (intro wrap64_id) (simp add: stats_wf_def in_int64_def)
  have tc: "wrap64 (TotalScans st + count) = TotalScans st + count"
    using wf room cnt by (intro wrap64_id) (simp add: stats_wf_def in_int64_def)
  have n1: "wrap64 (NSFWDetected st + 1) = NSFWDetected st + 1"
    using wf room inv by (intro wrap64_id) (simp add: stats_wf_def in_int64_def stats_inv_def)
  show ?thesis
    using inv cnt
    by (simp add: stats_inv_def updateStats_TotalScans updateStats_NSFWDetected
        updateTotalScans_TotalScans updateTotalScans_NSFWDetected t1 tc n1 GetStats_def Let_def)
qed

theorem stats_invariant_preserved_witness:
  "stats_wf zero_stats \<and> stats_inv zero_stats
   \<and> stats_inv (updateStats 100 True zero_stats)
   \<and> TotalScans (updateStats 100 True zero_stats) = 1
   \<and> stats_inv (updateTotalScans 2 250 zero_stats)
   \<and> TotalScans (updateTotalScans 2 250 zero_stats) = 2
   \<and> snd (GetStats zero_stats) = zero_stats"
proof -
  have wf: "stats_wf zero_stats" by (simp add: zero_stats_def stats_wf_def in_int64_def)
  have inv: "stats_inv zero_stats" by (simp add: zero_stats_def stats_inv_def)
  have c: "(0::int) \<le> 2" by simp
  have r1: "TotalScans zero_stats + 1 < 2 ^ 63" by (simp add: zero_stats_def)
  have r2: "TotalScans zero_stats + 2 < 2 ^ 63" by (simp add: zero_stats_def)
  have a: "TotalScans (updateStats 100 True zero_stats) = 1"
    by (simp add: updateStats_TotalScans zero_stats_def wrap64_def)
  have b: "TotalScans (updateTotalScans 2 250 zero_stats) = 2"
    by (simp add: updateTotalScans_TotalScans zero_stats_def wrap64_def)
  show ?thesis
    using stats_invariant_preserved [OF wf inv c r1 r2, of 100 True 250] wf inv a b by simp
qed

section \<open>What the operations leave unchanged\<close>

lemma log_event_simps [simp]:
  "stats (log_event ev s) = stats s" "config (log_event ev s) = config s"
  "models (log_event ev s) = models s" "trace (log_event ev s) = trace s @ [ev]"
  by (simp_all add: log_event_def)

lemma time_Now_simps [simp]:
  "fst (time_Now e s) = Now e (trace s)"
  "stats (snd (time_Now e s)) = stats s" "config (snd (time_Now e s)) = config s"
  "models (snd (time_Now e s)) = models s" "trace (snd (time_Now e s)) = trace s @ [EvNow]"
  by (simp_all add: time_Now_def)

lemma record_stats_simps [simp]:
  "stats (record_stats ms b s) = updateStats ms b (stats s)"
  "config (record_stats ms b s) = config s"
  "models (record_stats ms b s) = models s" "trace (record_stats ms b s) = trace s"
  by (simp_all add: record_stats_def)

lemma GetLoadedModels_cong: "models s' = models s \<Longrightarrow> GetLoadedModels s' = GetLoadedModels s"
  by (simp add: GetLoadedModels_def)

lemma base64ToBytes_frame:
  "stats (snd (base64ToBytes e b s)) = stats s \<and> config (snd (base64ToBytes e b s)) = config s
   \<and> models (snd (base64ToBytes e b s)) = models s
   \<and> trace (snd (base64ToBytes e b s)) = trace s @ [EvDecodeString (strip_data_url b)]"
  by (simp add: base64ToBytes_def Let_def split: option.splits)

lemma urlToBytes_frame:
  "stats (snd (urlToBytes e u s)) = stats s \<and> config (snd (urlToBytes e u s)) = config s
   \<and> models (snd (urlToBytes e u s)) = models s
   \<and> trace (snd (urlToBytes e u s)) = (if NewRequest e u then trace s @ [EvHttpDo u] else trace s)"
  by (simp add: urlToBytes_def Let_def split: option.splits)

lemma getImageData_frame:
  "stats (snd (getImageData e b u s)) = stats s \<and> config (snd (getImageData e b u s)) = config s
   \<and> models (snd (getImageData e b u s)) = models s"
  by (simp add: getImageData_def base64ToBytes_frame urlToBytes_frame)

lemma preprocessAndRunInference_frame:
  "stats (snd (preprocessAndRunInference e m d s)) = stats s
   \<and> config (snd (preprocessAndRunInference e m d s)) = config s
   \<and> models (snd (preprocessAndRunInference e m d s)) = models s"
  by (simp add: preprocessAndRunInference_def Let_def split: option.splits sum.splits)

lemma RunInference_frame:
  "stats (snd (RunInference e m d s)) = stats s
   \<and> config (snd (RunInference e m d s)) = config s
   \<and> models (snd (RunInference e m d s)) = models s"
proof -
  obtain t s1 where n: "time_Now e s = (t, s1)" by (cases "time_Now e s")
  have s1: "stats s1 = stats s" "config s1 = config s" "models s1 = models s"
    using time_Now_simps(2-4)[of e s] n by simp_all
  obtain r s3 where p: "preprocessAndRunInference e m d (log_event EvCtxDone s1) = (r, s3)"
    by (cases "preprocessAndRunInference e m d (log_event EvCtxDone s1)")
  have s3: "stats s3 = stats s" "config s3 = config s" "models s3 = models s"
    using preprocessAndRunInference_frame[of e m d "log_event EvCtxDone s1"] p s1 by simp_all
  obtain t' s4 where n': "time_Now e s3 = (t', s4)" by (cases "time_Now e s3")
  have s4: "stats s4 = stats s" "config s4 = config s" "models s4 = models s"
    using time_Now_simps(2-4)[of e s3] n' s3 by simp_all
  show ?thesis
    by (cases r) (simp_all add: RunInference_def n p n' s1 s3 s4 Let_def)
qed

lemma deferred_updateStats_stats:
  "stats (deferred_updateStats e t0 s) = updateStats (since_ms (Now e (trace s)) t0) False (stats s)"
  by (simp add: deferred_updateStats_def time_Now_def Let_def)

lemma deferred_updateStats_trace:
  "trace (deferred_updateStats e t0 s) = trace s @ [EvNow]"
  by (simp add: deferred_updateStats_def time_Now_def Let_def)

section \<open>Single scan\<close>

lemma ScanImage_body_stats:
  "stats (snd (ScanImage_body e req s)) =
     (case fst (ScanImage_body e req s) of
        Return (Inr response) \<Rightarrow>
          updateStats (ProcessingTimeMs response) (IsNSFW response) (stats s)
      | _ \<Rightarrow> stats s)"
proof -
  obtain g s1 where g: "getImageData e (ImageBase64 req) (ImageURL req) s = (g, s1)"
    by (cases "getImageData e (ImageBase64 req) (ImageURL req) s")
  have s1: "stats s1 = stats s"
    using getImageData_frame[of e "ImageBase64 req" "ImageURL req" s] g by simp
  show ?thesis
  proof (cases g)
    case (Inl err)
    then show ?thesis by (simp add: ScanImage_body_def g s1 Let_def)
  next
    case (Inr imgData)
    obtain r s3 where r: "RunInference e (Model req) imgData (log_event EvDecodeConfig s1) = (r, s3)"
      by (cases "RunInference e (Model req) imgData (log_event EvDecodeConfig s1)")
    have s3: "stats s3 = stats s"
      using RunInference_frame[of e "Model req" imgData "log_event EvDecodeConfig s1"] r s1 by simp
    show ?thesis
      by (cases r) (simp_all add: ScanImage_body_def g Inr r s1 s3 Let_def split: option.splits)
  qed
qed

lemma ScanImage_unfold:
  "ScanImage e req s =
     (fst (ScanImage_body e req (snd (time_Now e s))),
      deferred_updateStats e (Now e (trace s)) (snd (ScanImage_body e req (snd (time_Now e s)))))"
  by (simp add: ScanImage_def time_Now_def split: prod.splits)

lemma ScanImage_body_not_found:
  "Model req \<notin> set (GetLoadedModels s) \<Longrightarrow>
     ScanImage_body e req s = (Return (Inl (ModelNotFound (Model req))), s)"
  by (simp add: ScanImage_body_def list_ex_iff)

lemma ScanImage_body_panic:
  assumes "Model req \<in> set (GetLoadedModels s)"
    and "getImageData e (ImageBase64 req) (ImageURL req) s = (Inr imgData, s1)"
    and "cap imgData < 512"
  shows "ScanImage_body e req s = (Panic, s1)"
  using assms by (simp add: ScanImage_body_def list_ex_iff reslice_to_def)

text \<open>
  Claim C2, as amended. A single scan that returns an error (the model is not
  loaded, the image cannot be acquired, its format is invalid, or inference
  fails) is still recorded by the deferred \<^verbatim>\<open>updateStats\<close>: the total scan count
  grows by exactly one (modulo \<open>2^64\<close>) and the detection count is unchanged.
\<close>

theorem ScanImage_failure_recorded_once:
  assumes "fst (ScanImage e req s) = Return (Inl err)"
  shows "TotalScans (stats (snd (ScanImage e req s))) = wrap64 (TotalScans (stats s) + 1)
       \<and> NSFWDetected (stats (snd (ScanImage e req s))) = NSFWDetected (stats s)"
proof -
  let ?s0 = "snd (time_Now e s)"
  have res: "fst (ScanImage_body e req ?s0) = Return (Inl err)"
    using assms by (simp add: ScanImage_unfold)
  have "stats (snd (ScanImage_body e req ?s0)) = stats s"
    using ScanImage_body_stats[of e req ?s0] res by simp
  then show ?thesis
    by (simp add: ScanImage_unfold deferred_updateStats_stats updateStats_TotalScans
        updateStats_NSFWDetected)
qed

text \<open>
  A single scan that succeeds is recorded twice, once by the call after the
  classification and once by the deferred call; a scan that panics is recorded by
  the deferred call.
\<close>

lemma ScanImage_success_recorded_twice:
  assumes "fst (ScanImage e req s) = Return (Inr response)"
  shows "TotalScans (stats (snd (ScanImage e req s))) =
           wrap64 (wrap64 (TotalScans (stats s) + 1) + 1)"
proof -
  let ?s0 = "snd (time_Now e s)"
  have res: "fst (ScanImage_body e req ?s0) = Return (Inr response)"
    using assms by (simp add: ScanImage_unfold)
  have "stats (snd (ScanImage_body e req ?s0)) =
          updateStats (ProcessingTimeMs response) (IsNSFW response) (stats s)"
    using ScanImage_body_stats[of e req ?s0] res by simp
  then show ?thesis
    by (simp add: ScanImage_unfold deferred_updateStats_stats updateStats_TotalScans)
qed

lemma ScanImage_panic_recorded_once:
  assumes "fst (ScanImage e req s) = Panic"
  shows "TotalScans (stats (snd (ScanImage e req s))) = wrap64 (TotalScans (stats s) + 1)"
proof -
  let ?s0 = "snd (time_Now e s)"
  have res: "fst (ScanImage_body e req ?s0) = Panic"
    using assms by (simp add: ScanImage_unfold)
  have "stats (snd (ScanImage_body e req ?s0)) = stats s"
    using ScanImage_body_stats[of e req ?s0] res by simp
  then show ?thesis
    by (simp add: ScanImage_unfold deferred_updateStats_stats updateStats_TotalScans)
qed

section \<open>The concrete service\<close>

lemma example_service_models [simp]:
  "GetLoadedModels example_service =
     [''mobilenetv2-7'', ''nsfw_squeezenet'', ''NudeNet-320n'', ''NudeNet-640m'']"
  by (simp add: example_service_def NewNSFWService_def GetLoadedModels_def loadModels_def
      modelFiles_def example_env_def)

lemma example_service_fields [simp]:
  "stats example_service = zero_stats" "trace example_service = []"
  "config example_service = example_config"
  by (simp_all add: example_service_def NewNSFWService_def zero_stats_def)

lemma ScanImage_unknown_model:
  "fst (ScanImage example_env unknown_model_request example_service) =
     Return (Inl (ModelNotFound ''resnet''))"
proof -
  have "Model unknown_model_request \<notin>
          set (GetLoadedModels (snd (time_Now example_env example_service)))"
    by (simp add: GetLoadedModels_cong [of "snd (time_Now example_env example_service)" example_service]
        unknown_model_request_def)
  then show ?thesis
    by (simp add: ScanImage_unfold ScanImage_body_not_found unknown_model_request_def)
qed

text \<open>
  Against claim C2 as stated: a scan that names a model that is not loaded fails
  with \<open>ModelNotFound\<close>, and the total scan count goes from 0 to 1.
\<close>

theorem ScanImage_failure_changes_stats:
  "fst (ScanImage example_env unknown_model_request example_service) =
     Return (Inl (ModelNotFound ''resnet''))
   \<and> TotalScans (stats example_service) = 0
   \<and> TotalScans (stats (snd (ScanImage example_env unknown_model_request example_service))) = 1"
proof -
  have "Model unknown_model_request \<notin>
          set (GetLoadedModels (snd (time_Now example_env example_service)))"
    by (simp add: GetLoadedModels_cong [of "snd (time_Now example_env example_service)" example_service]
        unknown_model_request_def)
  then have b: "ScanImage_body example_env unknown_model_request
                  (snd (time_Now example_env example_service))
                = (Return (Inl (ModelNotFound ''resnet'')), snd (time_Now example_env example_service))"
    by (simp add: ScanImage_body_not_found unknown_model_request_def)
  show ?thesis
    by (simp add: ScanImage_unfold b deferred_updateStats_stats updateStats_TotalScans
        zero_stats_def wrap64_def)
qed

theorem ScanImage_failure_recorded_once_witness:
  "fst (ScanImage example_env unknown_model_request example_service) =
     Return (Inl (ModelNotFound ''resnet''))
   \<and> TotalScans (stats (snd (ScanImage example_env unknown_model_request example_service))) = 1
   \<and> NSFWDetected (stats (snd (ScanImage example_env unknown_model_request example_service))) = 0"
  using ScanImage_failure_recorded_once [OF ScanImage_unknown_model] ScanImage_unknown_model
  by (simp add: zero_stats_def wrap64_def)

lemma example_env_fields [simp]:
  "Now example_env tr = 0"
  "DecodeString example_env str = (if str = ''AAAA'' then Some three_zero_bytes else None)"
  "ctx_Done example_env tr = False" "limiter_Allow example_env tr = True"
  "stdin_Decode example_env tr = False" "client_Do example_env tr url = None"
  "NewRequest example_env url = True"
  by (simp_all add: example_env_def)

lemma max_bytes_example: "config s = example_config \<Longrightarrow> max_bytes s = 10485760"
  by (simp add: max_bytes_def example_config_def wrap64_def)

lemma base64ToBytes_AAAA:
  "config s = example_config \<Longrightarrow>
     base64ToBytes example_env ''AAAA'' s
       = (Inr three_zero_bytes, log_event (EvDecodeString ''AAAA'') s)"
  by (simp add: base64ToBytes_def strip_data_url_def Let_def max_bytes_example
      three_zero_bytes_def)

section \<open>Short payloads\<close>

lemma ScanImage_panics:
  assumes "Model req \<in> set (GetLoadedModels s)"
    and "getImageData e (ImageBase64 req) (ImageURL req) (snd (time_Now e s)) = (Inr imgData, s1)"
    and "cap imgData < 512"
  shows "fst (ScanImage e req s) = Panic"
proof -
  have "Model req \<in> set (GetLoadedModels (snd (time_Now e s)))"
    using assms(1) by (simp add: GetLoadedModels_def)
  then show ?thesis
    using ScanImage_body_panic [OF _ assms(2,3)] by (simp add: ScanImage_unfold)
qed

text \<open>
  Claim C4 at a failing input. The request names a loaded model and carries the
  inline image \<^verbatim>\<open>"AAAA"\<close>; the payload is resolved to a slice of three bytes
  whose capacity is three, \<^verbatim>\<open>imgData[:512]\<close> is out of range, and
  \<^verbatim>\<open>ScanImage\<close> panics: it returns neither a result nor an error.
\<close>

theorem ScanImage_short_payload_panics:
  "Model tiny_image_request \<in> set (GetLoadedModels example_service)
   \<and> fst (getImageData example_env (ImageBase64 tiny_image_request)
            (ImageURL tiny_image_request) (snd (time_Now example_env example_service)))
       = Inr three_zero_bytes
   \<and> sl_len three_zero_bytes = 3 \<and> cap three_zero_bytes = 3
   \<and> fst (ScanImage example_env tiny_image_request example_service) = Panic"
proof -
  have m: "Model tiny_image_request \<in> set (GetLoadedModels example_service)"
    by (simp add: tiny_image_request_def)
  have g: "getImageData example_env (ImageBase64 tiny_image_request)
             (ImageURL tiny_image_request) (snd (time_Now example_env example_service))
           = (Inr three_zero_bytes,
              log_event (EvDecodeString ''AAAA'') (snd (time_Now example_env example_service)))"
    by (simp add: getImageData_def tiny_image_request_def base64ToBytes_AAAA)
  have c: "cap three_zero_bytes < 512" by (simp add: cap_def three_zero_bytes_def)
  have "fst (ScanImage example_env tiny_image_request example_service) = Panic"
    by (rule ScanImage_panics [OF m g c])
  then show ?thesis using m g by (simp add: cap_def three_zero_bytes_def)
qed

section \<open>The token bucket on the inference path\<close>

text \<open>
  Against claim C6 as stated: with a loaded model and an empty token bucket,
  inference fails with the rate-limit error.
\<close>

theorem inference_rate_limit_gate_denies:
  "''mobilenetv2-7'' \<in> set (GetLoadedModels example_service)
   \<and> fst (preprocessAndRunInference limiter_denies ''mobilenetv2-7'' three_zero_bytes
            example_service) = Inl RateLimitExceeded
   \<and> fst (RunInference limiter_denies ''mobilenetv2-7'' three_zero_bytes example_service)
       = Inl RateLimitExceeded"
  by (simp add: preprocessAndRunInference_def RunInference_def limiter_denies_def example_env_def
      time_Now_def Let_def)

text \<open>
  Claim C6, as amended. The inference path has a gate of its own, the token
  bucket of \<^verbatim>\<open>ONNXRuntimeService\<close>: \<^verbatim>\<open>preprocessAndRunInference\<close> fails with
  the rate-limit error exactly when the bucket denies the call, and
  \<^verbatim>\<open>RunInference\<close> exactly when the context is not done and the bucket denies
  the call. Whether the model is loaded and whether the per-client limiter
  admitted the request play no part.
\<close>

theorem inference_rate_limit_gate:
  "(fst (preprocessAndRunInference e modelName imageData s) = Inl RateLimitExceeded
      \<longleftrightarrow> \<not> limiter_Allow e (trace s))
   \<and> (fst (RunInference e modelName imageData s) = Inl RateLimitExceeded
      \<longleftrightarrow> \<not> ctx_Done e (trace s @ [EvNow])
          \<and> \<not> limiter_Allow e (trace s @ [EvNow, EvCtxDone]))"
proof -
  have p: "fst (preprocessAndRunInference e modelName imageData s') = Inl RateLimitExceeded
             \<longleftrightarrow> \<not> limiter_Allow e (trace s')" for s'
    by (simp add: preprocessAndRunInference_def Let_def postprocessingStandard_def
        postprocessingNudeNet_def split: option.splits sum.splits processing.splits)
  let ?s2 = "log_event EvCtxDone (snd (time_Now e s))"
  have "fst (RunInference e modelName imageData s) = Inl RateLimitExceeded \<longleftrightarrow>
          \<not> ctx_Done e (trace s @ [EvNow])
          \<and> fst (preprocessAndRunInference e modelName imageData ?s2) = Inl RateLimitExceeded"
    by (cases "preprocessAndRunInference e modelName imageData ?s2";
        cases "fst (preprocessAndRunInference e modelName imageData ?s2)")
       (simp_all add: RunInference_def Let_def time_Now_def split: prod.splits)
  then show ?thesis by (simp add: p)
qed

section \<open>Detection\<close>

text \<open>
  Claim C9. A detect call that names a loaded model whose name does not start
  with \<^verbatim>\<open>nudenet\<close> (in any letter case) fails with \<open>DetectionUnsupported\<close>, the
  UnsupportedOperation of the specification, and acquires no image: the only
  calls it makes are the two clock reads of the deferred function, so no base64
  string is decoded and no URL is fetched.
\<close>

theorem DetectImage_unsupported_no_acquisition:
  assumes "Model req \<in> set (GetLoadedModels s)" and "\<not> supports_detection (Model req)"
  shows "fst (DetectImage e req s) = Inl (DetectionUnsupported (Model req))
       \<and> acquisitions (snd (DetectImage e req s)) = acquisitions s
       \<and> trace (snd (DetectImage e req s)) = trace s @ [EvNow, EvNow]"
proof -
  have "\<not> list_ex (\<lambda>modelName. modelName = Model req \<and> supports_detection modelName)
            (GetLoadedModels s')" for s'
    using assms(2) by (auto simp: list_ex_iff)
  then have "DetectImage_body e req s' = (Inl (DetectionUnsupported (Model req)), s')" for s'
    by (simp add: DetectImage_body_def)
  then show ?thesis
    by (simp add: DetectImage_def time_Now_def deferred_updateStats_trace acquisitions_def
        log_event_def)
qed

lemma mobilenet_not_detection: "\<not> supports_detection ''mobilenetv2-7''"
  by (simp add: supports_detection_def HasPrefix_def ToLower_def ToLower_char_def)

theorem DetectImage_unsupported_no_acquisition_witness:
  "Model tiny_image_request \<in> set (GetLoadedModels example_service)
   \<and> \<not> supports_detection (Model tiny_image_request)
   \<and> fst (DetectImage example_env tiny_image_request example_service)
       = Inl (DetectionUnsupported ''mobilenetv2-7'')
   \<and> acquisitions (snd (DetectImage example_env tiny_image_request example_service)) = []"
proof -
  have a: "Model tiny_image_request \<in> set (GetLoadedModels example_service)"
    by (simp add: tiny_image_request_def)
  have b: "\<not> supports_detection (Model tiny_image_request)"
    by (simp add: tiny_image_request_def mobilenet_not_detection)
  have c: "acquisitions example_service = []" by (simp add: acquisitions_def)
  show ?thesis
    using DetectImage_unsupported_no_acquisition [OF a b, of example_env] a b c
    by (simp add: tiny_image_request_def)
qed

section \<open>Image-source resolution\<close>

text \<open>
  Claim C8. When inline data is present \<^verbatim>\<open>getImageData\<close> is the base64 decoding
  of it, and the one call it makes is that decoding, whatever the URL is; when
  only a URL is present it is the download of the URL, and it makes no call but
  the HTTP request; when neither is present it fails with \<open>MissingImageSource\<close>
  and makes no call.
\<close>

theorem getImageData_source_resolution:
  "(b \<noteq> [] \<longrightarrow> getImageData e b u s = base64ToBytes e b s
        \<and> trace (snd (getImageData e b u s)) = trace s @ [EvDecodeString (strip_data_url b)])
 \<and> (b = [] \<and> u \<noteq> [] \<longrightarrow> getImageData e b u s = urlToBytes e u s
        \<and> trace (snd (getImageData e b u s))
            = (if NewRequest e u then trace s @ [EvHttpDo u] else trace s))
 \<and> (b = [] \<and> u = [] \<longrightarrow> getImageData e b u s = (Inl MissingImageSource, s))"
  by (simp add: getImageData_def base64ToBytes_frame urlToBytes_frame)

theorem getImageData_source_resolution_witness:
  "getImageData example_env ''AAAA'' ''http://example.org/a.png'' example_service
     = base64ToBytes example_env ''AAAA'' example_service
   \<and> trace (snd (getImageData example_env ''AAAA'' ''http://example.org/a.png'' example_service))
       = [EvDecodeString ''AAAA'']
   \<and> getImageData example_env [] ''http://example.org/a.png'' example_service
       = urlToBytes example_env ''http://example.org/a.png'' example_service
   \<and> trace (snd (getImageData example_env [] ''http://example.org/a.png'' example_service))
       = [EvHttpDo ''http://example.org/a.png'']
   \<and> getImageData example_env [] [] example_service = (Inl MissingImageSource, example_service)"
proof -
  have st: "strip_data_url ''AAAA'' = ''AAAA''" by (simp add: strip_data_url_def)
  have tr: "trace example_service = []" by simp
  have nr: "NewRequest example_env ''http://example.org/a.png''" by simp
  have "''AAAA'' \<noteq> []" by simp
  with getImageData_source_resolution
         [where b = "''AAAA''" and e = example_env and u = "''http://example.org/a.png''"
            and s = example_service]
  have inline:
    "getImageData example_env ''AAAA'' ''http://example.org/a.png'' example_service
       = base64ToBytes example_env ''AAAA'' example_service
     \<and> trace (snd (getImageData example_env ''AAAA'' ''http://example.org/a.png''
                    example_service))
         = trace example_service @ [EvDecodeString (strip_data_url ''AAAA'')]"
    by blast
  have "''http://example.org/a.png'' \<noteq> []" by simp
  with getImageData_source_resolution
         [where b = "[]" and e = example_env and u = "''http://example.org/a.png''"
            and s = example_service] nr
  have url:
    "getImageData example_env [] ''http://example.org/a.png'' example_service
       = urlToBytes example_env ''http://example.org/a.png'' example_service
     \<and> trace (snd (getImageData example_env [] ''http://example.org/a.png'' example_service))
         = trace example_service @ [EvHttpDo ''http://example.org/a.png'']"
    by metis
  have neither:
    "getImageData example_env [] [] example_service = (Inl MissingImageSource, example_service)"
    using getImageData_source_resolution
            [where b = "[]" and e = example_env and u = "[]" and s = example_service]
    by blast
  show ?thesis
    using inline url neither unfolding st tr append_Nil by blast
qed

section \<open>Batch scan\<close>

lemma record_stats_if [simp]:
  "(if b then record_stats t True s else record_stats t False s) = record_stats t b s"
  by simp

lemma ScanBatch_item_unfold:
  "ScanBatch_item e m imgReq s =
     (case (if item_ImageBase64 imgReq \<noteq> []
            then base64ToBytes e (item_ImageBase64 imgReq) (log_event EvNow s)
            else if item_ImageURL imgReq \<noteq> []
            then urlToBytes e (item_ImageURL imgReq) (log_event EvNow s)
            else (Inl MissingImageSource, log_event EvNow s)) of
        (Inl err, s1) \<Rightarrow> (None, s1)
      | (Inr imgData, s1) \<Rightarrow>
          (case RunInference e m imgData s1 of
             (Inl err, s2) \<Rightarrow> (None, s2)
           | (Inr response, s2) \<Rightarrow>
               (Some \<lparr>result_ID = ID imgReq, result_NSFWScore = NSFWScore response,
                       result_IsNSFW = IsNSFW response,
                       result_ProcessingTimeMs = ProcessingTimeMs response\<rparr>,
                record_stats (ProcessingTimeMs response) (IsNSFW response) s2)))"
  by (simp add: ScanBatch_item_def time_Now_def Let_def split: prod.splits sum.splits
      split del: if_split cong: if_cong)

lemma ScanBatch_item_frame:
  "stats (snd (ScanBatch_item e m imgReq s)) =
     (case fst (ScanBatch_item e m imgReq s) of
        None \<Rightarrow> stats s
      | Some result \<Rightarrow>
          updateStats (result_ProcessingTimeMs result) (result_IsNSFW result) (stats s))
   \<and> models (snd (ScanBatch_item e m imgReq s)) = models s
   \<and> config (snd (ScanBatch_item e m imgReq s)) = config s"
proof -
  let ?s0 = "log_event EvNow s"
  let ?got = "if item_ImageBase64 imgReq \<noteq> [] then base64ToBytes e (item_ImageBase64 imgReq) ?s0
              else if item_ImageURL imgReq \<noteq> [] then urlToBytes e (item_ImageURL imgReq) ?s0
              else (Inl MissingImageSource, ?s0)"
  obtain g s1 where g: "?got = (g, s1)" by (cases ?got)
  have "stats (snd ?got) = stats s \<and> models (snd ?got) = models s
        \<and> config (snd ?got) = config s"
    by (simp add: base64ToBytes_frame urlToBytes_frame)
  then have s1: "stats s1 = stats s" "models s1 = models s" "config s1 = config s"
    unfolding g by simp_all
  show ?thesis
  proof (cases g)
    case (Inl err)
    show ?thesis unfolding ScanBatch_item_unfold g Inl by (simp add: s1)
  next
    case (Inr imgData)
    obtain r s2 where r: "RunInference e m imgData s1 = (r, s2)"
      by (cases "RunInference e m imgData s1")
    have s2: "stats s2 = stats s" "models s2 = models s" "config s2 = config s"
      using RunInference_frame[of e m imgData s1] r s1 by simp_all
    show ?thesis unfolding ScanBatch_item_unfold g Inr
      by (cases r) (simp_all add: r s2)
  qed
qed

text \<open>
  The loop appends one result for every item that is not dropped, and every
  appended result has already been recorded once by \<^verbatim>\<open>updateStats\<close>.
\<close>

lemma ScanBatch_loop_counts:
  assumes "in_int64 (TotalScans (stats s))"
    and "TotalScans (stats s) + int (length items) < 2 ^ 63"
  shows "length results \<le> length (fst (ScanBatch_loop e m items results s))
       \<and> length (fst (ScanBatch_loop e m items results s)) \<le> length results + length items
       \<and> TotalScans (stats (snd (ScanBatch_loop e m items results s)))
           = TotalScans (stats s)
             + (int (length (fst (ScanBatch_loop e m items results s))) - int (length results))"
  using assms
proof (induction items arbitrary: results s)
  case Nil
  then show ?case by simp
next
  case (Cons imgReq rest)
  obtain r s1 where it: "ScanBatch_item e m imgReq s = (r, s1)"
    by (cases "ScanBatch_item e m imgReq s")
  have st: "stats s1 = (case r of None \<Rightarrow> stats s
              | Some result \<Rightarrow> updateStats (result_ProcessingTimeMs result)
                                 (result_IsNSFW result) (stats s))"
    using ScanBatch_item_frame[of e m imgReq s] it by simp
  show ?case
  proof (cases r)
    case None
    have a: "in_int64 (TotalScans (stats s1))" using st None Cons.prems by simp
    have b: "TotalScans (stats s1) + int (length rest) < 2 ^ 63"
      using st None Cons.prems by simp
    show ?thesis
      using Cons.IH[OF a b, of results] st None it by simp
  next
    case (Some result)
    have w: "wrap64 (TotalScans (stats s) + 1) = TotalScans (stats s) + 1"
      using Cons.prems by (intro wrap64_id) (simp add: in_int64_def)
    have t: "TotalScans (stats s1) = TotalScans (stats s) + 1"
      using st Some by (simp add: updateStats_TotalScans w)
    have a: "in_int64 (TotalScans (stats s1))"
      using t Cons.prems by (simp add: in_int64_def)
    have b: "TotalScans (stats s1) + int (length rest) < 2 ^ 63"
      using t Cons.prems by simp
    show ?thesis
      using Cons.IH[OF a b, of "results @ [result]"] t Some it by simp
  qed
qed

lemma ScanBatch_unfold:
  "fst (ScanBatch e req s) = fst (ScanBatch_body e req (Now e (trace s)) (snd (time_Now e s)))
   \<and> stats (snd (ScanBatch e req s))
       = stats (snd (ScanBatch_body e req (Now e (trace s)) (snd (time_Now e s))))"
  by (simp add: ScanBatch_def time_Now_def split: prod.splits)

text \<open>
  What the code does for a batch: when no counter overflows, a batch that returns
  \<open>results\<close> adds twice their number to the total scan count, once item by item
  and once more by the aggregate update.
\<close>

lemma ScanBatch_counts_twice:
  assumes "in_int64 (TotalScans (stats s))"
    and "TotalScans (stats s) + 2 * int (length (Images req)) < 2 ^ 63"
    and "fst (ScanBatch e req s) = Inr results"
  shows "length results \<le> length (Images req)
       \<and> TotalScans (stats (snd (ScanBatch e req s)))
           = TotalScans (stats s) + 2 * int (length results)"
proof -
  let ?s0 = "snd (time_Now e s)"
  let ?loop = "ScanBatch_loop e (batch_Model req) (Images req) [] ?s0"
  have ex: "list_ex (\<lambda>modelName. modelName = batch_Model req) (GetLoadedModels ?s0)"
  proof (rule ccontr)
    assume "\<not> ?thesis"
    then have "fst (ScanBatch e req s) = Inl (ModelNotFound (batch_Model req))"
      by (simp add: ScanBatch_unfold ScanBatch_body_def)
    with assms(3) show False by simp
  qed
  have a: "in_int64 (TotalScans (stats ?s0))" using assms(1) by simp
  have b: "TotalScans (stats ?s0) + int (length (Images req)) < 2 ^ 63" using assms(2) by simp
  note L = ScanBatch_loop_counts[OF a b, of "[]" e "batch_Model req"]
  have res: "results = fst ?loop"
    using assms(3) ex
    by (simp add: ScanBatch_unfold ScanBatch_body_def Let_def time_Now_def split: prod.splits)
  have tot: "stats (snd (ScanBatch e req s))
               = updateTotalScans (int (length (fst ?loop)))
                   (since_ms (Now e (trace (snd ?loop))) (Now e (trace s))) (stats (snd ?loop))"
    using ex
    by (simp add: ScanBatch_unfold ScanBatch_body_def Let_def time_Now_def split: prod.splits)
  have len: "length (fst ?loop) \<le> length (Images req)"
    and tl: "TotalScans (stats (snd ?loop)) = TotalScans (stats s) + int (length (fst ?loop))"
    using L by simp_all
  have "in_int64 (TotalScans (stats s) + int (length (fst ?loop)) + int (length (fst ?loop)))"
    using len assms(1,2) by (simp add: in_int64_def)
  then have w: "wrap64 (TotalScans (stats s) + int (length (fst ?loop)) + int (length (fst ?loop)))
                  = TotalScans (stats s) + int (length (fst ?loop)) + int (length (fst ?loop))"
    by (rule wrap64_id)
  have "TotalScans (stats (snd (ScanBatch e req s)))
          = wrap64 (TotalScans (stats (snd ?loop)) + int (length (fst ?loop)))"
    by (simp only: tot updateTotalScans_TotalScans)
  also have "\<dots> = TotalScans (stats s) + int (length (fst ?loop)) + int (length (fst ?loop))"
    by (simp only: tl w)
  finally have "TotalScans (stats (snd (ScanBatch e req s)))
                  = TotalScans (stats s) + 2 * int (length (fst ?loop))"
    by simp
  then show ?thesis using len res by simp
qed

lemma ScanBatch_loop_Some:
  "fst (ScanBatch_item e m imgReq s) = Some result \<Longrightarrow>
     ScanBatch_loop e m (imgReq # rest) results s
       = ScanBatch_loop e m rest (results @ [result]) (snd (ScanBatch_item e m imgReq s))"
  by (cases "ScanBatch_item e m imgReq s") simp

lemma ScanBatch_loop_None:
  "fst (ScanBatch_item e m imgReq s) = None \<Longrightarrow>
     ScanBatch_loop e m (imgReq # rest) results s
       = ScanBatch_loop e m rest results (snd (ScanBatch_item e m imgReq s))"
  by (cases "ScanBatch_item e m imgReq s") simp

lemma ScanBatch_item_no_source:
  "item_ImageBase64 imgReq = [] \<Longrightarrow> item_ImageURL imgReq = [] \<Longrightarrow>
     fst (ScanBatch_item e m imgReq s) = None"
  by (simp add: ScanBatch_item_unfold)

lemma ScanBatch_fst:
  assumes "list_ex (\<lambda>modelName. modelName = batch_Model req)
             (GetLoadedModels (snd (time_Now e s)))"
  shows "fst (ScanBatch e req s)
           = Inr (fst (ScanBatch_loop e (batch_Model req) (Images req) []
                         (snd (time_Now e s))))"
  using assms
  by (simp add: ScanBatch_unfold ScanBatch_body_def Let_def split: prod.splits)

lemma RunInference_example:
  assumes "config s = example_config" and "map_of (models s) m = Some model"
  shows "fst (RunInference example_env m d s) = Inr (mock_response m)"
  using assms
  by (simp add: RunInference_def preprocessAndRunInference_def time_Now_def Let_def
      mock_response_def example_config_def since_ms_def wrap64_def go_div_def)

lemma ScanBatch_item_example:
  assumes "config s = example_config" and "map_of (models s) m = Some model"
    and "item_ImageBase64 imgReq = ''AAAA''"
  shows "fst (ScanBatch_item example_env m imgReq s)
           = Some \<lparr>result_ID = ID imgReq, result_NSFWScore = 0.3, result_IsNSFW = False,
                    result_ProcessingTimeMs = 0\<rparr>"
proof -
  have b: "base64ToBytes example_env ''AAAA'' (log_event EvNow s)
             = (Inr three_zero_bytes, log_event (EvDecodeString ''AAAA'') (log_event EvNow s))"
    using assms(1) by (simp add: base64ToBytes_AAAA)
  let ?s1 = "log_event (EvDecodeString ''AAAA'') (log_event EvNow s)"
  have r: "fst (RunInference example_env m three_zero_bytes ?s1) = Inr (mock_response m)"
    using assms(1,2) by (intro RunInference_example [where model = model]) simp_all
  obtain s2 where "RunInference example_env m three_zero_bytes ?s1 = (Inr (mock_response m), s2)"
    using r by (cases "RunInference example_env m three_zero_bytes ?s1") simp
  then show ?thesis
    by (simp add: ScanBatch_item_unfold assms(3) b mock_response_def)
qed

lemma example_service_lookup:
  "map_of (models example_service) ''mobilenetv2-7''
     = Some \<lparr>Name = ''mobilenetv2-7'', Path = ''/models/mobilenetv2-7.onnx'', Processing = Standard\<rparr>"
  by (simp add: example_service_def NewNSFWService_def loadModels_def modelFiles_def
      example_env_def example_config_def processing_of_def)

text \<open>
  Claim C1 at a failing input. A batch of three items names a loaded model; the
  second item has no image source and is dropped, so the response holds the two
  results of items 1 and 3, as the claim says. The total scan count goes from 0
  to 4, not to 2: each result is counted by \<^verbatim>\<open>updateStats\<close> in the loop and
  again by \<^verbatim>\<open>updateTotalScans\<close> after it.
\<close>

theorem ScanBatch_counts_results_twice:
  "length (Images example_batch) = 3
   \<and> map result_ID (projr (fst (ScanBatch example_env example_batch example_service)))
       = [''1'', ''3'']
   \<and> TotalScans (stats example_service) = 0
   \<and> TotalScans (stats (snd (ScanBatch example_env example_batch example_service))) = 4"
proof -
  let ?m = "''mobilenetv2-7''"
  let ?model = "\<lparr>Name = ''mobilenetv2-7'', Path = ''/models/mobilenetv2-7.onnx'',
                  Processing = Standard\<rparr>"
  let ?s0 = "snd (time_Now example_env example_service)"
  let ?s1 = "snd (ScanBatch_item example_env ?m batch_item_1 ?s0)"
  let ?s2 = "snd (ScanBatch_item example_env ?m batch_item_2 ?s1)"
  let ?r1 = "\<lparr>result_ID = ''1'', result_NSFWScore = 0.3, result_IsNSFW = False,
               result_ProcessingTimeMs = 0\<rparr>"
  let ?r3 = "\<lparr>result_ID = ''3'', result_NSFWScore = 0.3, result_IsNSFW = False,
               result_ProcessingTimeMs = 0\<rparr>"
  have ok0: "config ?s0 = example_config" "map_of (models ?s0) ?m = Some ?model"
    by (simp_all add: example_service_lookup)
  have ok1: "config ?s1 = example_config" "map_of (models ?s1) ?m = Some ?model"
    using ok0 by (simp_all add: ScanBatch_item_frame)
  have ok2: "config ?s2 = example_config" "map_of (models ?s2) ?m = Some ?model"
    using ok1 by (simp_all add: ScanBatch_item_frame)
  have i1: "fst (ScanBatch_item example_env ?m batch_item_1 ?s0) = Some ?r1"
    using ScanBatch_item_example [OF ok0, of batch_item_1] by (simp add: batch_item_1_def)
  have i2: "fst (ScanBatch_item example_env ?m batch_item_2 ?s1) = None"
    by (simp add: ScanBatch_item_no_source batch_item_2_def)
  have i3: "fst (ScanBatch_item example_env ?m batch_item_3 ?s2) = Some ?r3"
    using ScanBatch_item_example [OF ok2, of batch_item_3] by (simp add: batch_item_3_def)
  have loop: "fst (ScanBatch_loop example_env ?m [batch_item_1, batch_item_2, batch_item_3] [] ?s0)
                = [?r1, ?r3]"
    by (simp only: ScanBatch_loop_Some [OF i1] ScanBatch_loop_None [OF i2]
        ScanBatch_loop_Some [OF i3] ScanBatch_loop.simps(1) append_Nil append_Cons fst_conv)
  have bm: "batch_Model example_batch = ?m"
    and im: "Images example_batch = [batch_item_1, batch_item_2, batch_item_3]"
    by (simp_all add: example_batch_def)
  have ex: "list_ex (\<lambda>modelName. modelName = batch_Model example_batch) (GetLoadedModels ?s0)"
    by (simp add: GetLoadedModels_cong [of ?s0 example_service] bm)
  have res: "fst (ScanBatch example_env example_batch example_service) = Inr [?r1, ?r3]"
    using ScanBatch_fst [OF ex] unfolding bm im loop .
  have a: "in_int64 (TotalScans (stats example_service))"
    by (simp add: zero_stats_def in_int64_def)
  have b: "TotalScans (stats example_service) + 2 * int (length (Images example_batch)) < 2 ^ 63"
    by (simp add: zero_stats_def example_batch_def)
  show ?thesis
    using ScanBatch_counts_twice [OF a b res] res
    by (simp add: zero_stats_def example_batch_def)
qed

section \<open>The rate limiter\<close>

lemma RateLimit_config:
  "limit (snd (RateLimit ip tc now tb r)) = limit r
   \<and> window (snd (RateLimit ip tc now tb r)) = window r
   \<and> blockWindow (snd (RateLimit ip tc now tb r)) = blockWindow r"
  by (simp add: RateLimit_def Let_def)

lemma cleanupOldEntries_config:
  "limit (cleanupOldEntries now r) = limit r \<and> window (cleanupOldEntries now r) = window r
   \<and> blockWindow (cleanupOldEntries now r) = blockWindow r"
  by (simp add: cleanupOldEntries_def)

lemma rl_run_Request:
  "rl_run r (Request ip tc now tb # evs) =
     ((Request ip tc now tb, fst (RateLimit ip tc now tb r))
        # fst (rl_run (snd (RateLimit ip tc now tb r)) evs),
      snd (rl_run (snd (RateLimit ip tc now tb r)) evs))"
  by (simp split: prod.splits)

lemma rl_run_config:
  "limit (snd (rl_run r evs)) = limit r \<and> window (snd (rl_run r evs)) = window r
   \<and> blockWindow (snd (rl_run r evs)) = blockWindow r"
proof (induction evs arbitrary: r)
  case Nil
  then show ?case by simp
next
  case (Cons ev evs)
  show ?case
  proof (cases ev)
    case (Request ip tc now tb)
    show ?thesis
      unfolding Request rl_run_Request
      using Cons.IH[of "snd (RateLimit ip tc now tb r)"] RateLimit_config[of ip tc now tb r]
      by simp
  next
    case (CleanupTick now)
    show ?thesis
      using Cons.IH[of "cleanupOldEntries now r"] cleanupOldEntries_config[of now r]
      by (simp add: CleanupTick)
  qed
qed

lemma RateLimit_other:
  "ip' \<noteq> ip \<Longrightarrow> visitors (snd (RateLimit ip' tc now tb r)) ip = visitors r ip"
  by (simp add: RateLimit_def Let_def)

lemma cleanupOldEntries_requests:
  "requests_of (cleanupOldEntries now r) ip = requests_of r ip"
  by (simp add: requests_of_def cleanupOldEntries_def split: option.splits)

lemma filter_after_cutoff:
  "cutoff \<le> c \<Longrightarrow>
     filter (\<lambda>reqTime. c < reqTime) (filter (\<lambda>reqTime. cutoff < reqTime) xs)
       = filter (\<lambda>reqTime. c < reqTime) (xs :: int list)"
  by (induction xs) auto

lemma RateLimit_count_after:
  assumes "now - window r \<le> c"
  shows "count_after c (snd (RateLimit ip' tc now tb r)) ip =
           count_after c r ip
           + (if admitted_after ip c (Request ip' tc now tb, fst (RateLimit ip' tc now tb r))
              then 1 else 0)"
proof (cases "ip' = ip")
  case False
  then show ?thesis
    using RateLimit_other[of ip' ip tc now tb r] by (simp add: count_after_def requests_of_def)
next
  case True
  show ?thesis
    using filter_after_cutoff[OF assms]
    by (auto simp add: True RateLimit_def Let_def count_after_def requests_of_def
        split: option.splits)
qed

lemma rl_run_count_after:
  assumes "requests_by (c + window r) evs"
  shows "count_after c (snd (rl_run r evs)) ip =
           count_after c r ip + length (filter (admitted_after ip c) (fst (rl_run r evs)))"
  using assms
proof (induction evs arbitrary: r)
  case Nil
  then show ?case by simp
next
  case (Cons ev evs)
  show ?case
  proof (cases ev)
    case (Request ip' tc now tb)
    let ?r1 = "snd (RateLimit ip' tc now tb r)"
    have w: "window ?r1 = window r" using RateLimit_config[of ip' tc now tb r] by simp
    have le: "now - window r \<le> c" using Cons.prems by (simp add: requests_by_def Request)
    have rest: "requests_by (c + window ?r1) evs"
      using Cons.prems w by (simp add: requests_by_def)
    show ?thesis
      unfolding Request rl_run_Request
      using Cons.IH[OF rest] RateLimit_count_after[OF le, of ip' tc tb ip]
      by auto
  next
    case (CleanupTick now)
    have rest: "requests_by (c + window (cleanupOldEntries now r)) evs"
      using Cons.prems by (simp add: requests_by_def cleanupOldEntries_config)
    show ?thesis
      using Cons.IH[OF rest]
      by (simp add: CleanupTick count_after_def cleanupOldEntries_requests)
  qed
qed

text \<open>A client that is blocked until \<open>b\<close> or later.\<close>

lemma RateLimit_limit_reached:
  assumes "limit r \<le> int (count_after (now - window r) r ip)"
  shows "fst (RateLimit ip tc now tb r) = Blocked"
  using assms
  by (simp add: RateLimit_def Let_def count_after_def requests_of_def split: option.splits)

lemma RateLimit_sets_block:
  assumes "limit r \<le> int (count_after (now - window r) r ip)" and "\<not> blocked_at r ip tc"
  shows "\<exists>v. visitors (snd (RateLimit ip tc now tb r)) ip = Some v
             \<and> BlockedUntil v = tb + blockWindow r"
  using assms
  by (auto simp add: RateLimit_def Let_def count_after_def requests_of_def blocked_at_def
      split: option.splits)

lemma blocked_run:
  assumes "visitors r ip = Some v" and "b \<le> BlockedUntil v" and "events_before b evs"
  shows "all_blocked ip (fst (rl_run r evs)) \<and> visitors (snd (rl_run r evs)) ip = Some v"
  using assms(1,3)
proof (induction evs arbitrary: r)
  case Nil
  then show ?case by (simp add: all_blocked_def)
next
  case (Cons ev evs)
  have rest: "events_before b evs" using Cons.prems(2) by (simp add: events_before_def)
  show ?case
  proof (cases ev)
    case (Request ip' tc now tb)
    let ?r1 = "snd (RateLimit ip' tc now tb r)"
    have tc: "tc < b" using Cons.prems(2) by (simp add: events_before_def Request)
    have v1: "visitors ?r1 ip = Some v"
    proof (cases "ip' = ip")
      case True
      then show ?thesis using Cons.prems(1) assms(2) tc by (simp add: RateLimit_def)
    next
      case False
      then show ?thesis using RateLimit_other[of ip' ip tc now tb r] Cons.prems(1) by simp
    qed
    have d: "ip' = ip \<longrightarrow> fst (RateLimit ip' tc now tb r) = Blocked"
      using Cons.prems(1) assms(2) tc by (simp add: RateLimit_def)
    show ?thesis
      unfolding Request rl_run_Request
      using Cons.IH[OF v1 rest] d by (simp add: all_blocked_def)
  next
    case (CleanupTick now)
    have "now < b" using Cons.prems(2) by (simp add: events_before_def CleanupTick)
    then have "visitors (cleanupOldEntries now r) ip = Some v"
      using Cons.prems(1) assms(2) by (simp add: cleanupOldEntries_def)
    then show ?thesis using Cons.IH[OF _ rest] by (simp add: CleanupTick)
  qed
qed




text \<open>
  Claim C5. Take any run of the limiter in which the client \<open>ip\<close> had at least
  \<open>limit\<close> requests admitted at instants inside the window that ends at \<open>now\<close>
  (later than \<open>now - window\<close>), all requests of the run having been made at
  \<open>now\<close> or before. Then the call of \<open>ip\<close> at \<open>now\<close> is blocked. When that call
  is the first one after the admitted requests, so that the client is not
  already inside a block, and the clock does not run backwards during the call,
  every request of the client among the events that happen before
  \<open>tCheck + blockWindow\<close> is blocked too, whatever the client and the others
  attempt in between.
\<close>

theorem RateLimit_blocks_after_limit:
  assumes run: "rl_run r evs = (lg, r1)"
    and earlier: "requests_by now evs"
    and admitted: "limit r \<le> int (length (filter (admitted_after ip (now - window r)) lg))"
    and nxt: "RateLimit ip tCheck now tBlock r1 = (d, r2)"
    and after: "rl_run r2 later = (lg', r3)"
  shows "d = Blocked
       \<and> (\<not> blocked_at r1 ip tCheck \<and> tCheck \<le> tBlock
            \<and> events_before (tCheck + blockWindow r) later
          \<longrightarrow> all_blocked ip lg')"
proof -
  have cfg: "limit r1 = limit r" "window r1 = window r" "blockWindow r1 = blockWindow r"
    using rl_run_config[of r evs] run by simp_all
  have "requests_by ((now - window r) + window r) evs" using earlier by simp
  from rl_run_count_after[OF this, of ip]
  have "count_after (now - window r) r1 ip
          = count_after (now - window r) r ip
            + length (filter (admitted_after ip (now - window r)) lg)"
    using run by simp
  then have reached: "limit r1 \<le> int (count_after (now - window r1) r1 ip)"
    using admitted cfg by simp
  have d: "d = Blocked" using RateLimit_limit_reached[OF reached, of tCheck tBlock] nxt by simp
  have "all_blocked ip lg'"
    if nb: "\<not> blocked_at r1 ip tCheck" and mono: "tCheck \<le> tBlock"
      and during: "events_before (tCheck + blockWindow r) later"
  proof -
    obtain v where v: "visitors r2 ip = Some v" "BlockedUntil v = tBlock + blockWindow r1"
      using RateLimit_sets_block[OF reached nb, of tBlock] nxt by auto
    have b: "tCheck + blockWindow r \<le> BlockedUntil v" using v(2) mono cfg by simp
    show ?thesis using blocked_run[OF v(1) b during] after by simp
  qed
  then show ?thesis using d by blast
qed

lemma scenario_three_admitted:
  "rl_run scenario_limiter three_requests =
     ([(Request ''10.0.0.1'' 0 0 0, Allowed), (Request ''10.0.0.1'' 1 1 1, Allowed),
       (Request ''10.0.0.1'' 2 2 2, Allowed)],
      scenario_limiter\<lparr>visitors :=
         [''10.0.0.1'' \<mapsto> \<lparr>Requests = [0, 1, 2], BlockedUntil = 0\<rparr>]\<rparr>)"
  by (simp add: scenario_limiter_def three_requests_def NewRateLimitMiddleware_def
      RateLimit_def Let_def)


text \<open>
  When is a client not blocked at its next call? Whenever its last request was
  admitted, at \<open>tCheck\<close> or before, and it has made no request since.
\<close>

lemma quiet_run_not_blocked:
  assumes "no_request_of ip evs" and "\<not> blocked_at r ip t"
  shows "\<not> blocked_at (snd (rl_run r evs)) ip t"
  using assms
proof (induction evs arbitrary: r)
  case Nil
  then show ?case by simp
next
  case (Cons ev evs)
  have rest: "no_request_of ip evs" using Cons.prems(1) by (simp add: no_request_of_def)
  show ?case
  proof (cases ev)
    case (Request ip' tc now tb)
    have "ip' \<noteq> ip" using Cons.prems(1) by (simp add: no_request_of_def Request)
    then have "visitors (snd (RateLimit ip' tc now tb r)) ip = visitors r ip"
      by (rule RateLimit_other)
    then have "\<not> blocked_at (snd (RateLimit ip' tc now tb r)) ip t"
      using Cons.prems(2) by (simp add: blocked_at_def)
    then show ?thesis unfolding Request rl_run_Request using Cons.IH[OF rest] by simp
  next
    case (CleanupTick now)
    have "\<not> blocked_at (cleanupOldEntries now r) ip t"
      using Cons.prems(2) by (simp add: blocked_at_def cleanupOldEntries_def split: option.splits)
    then show ?thesis using Cons.IH[OF rest] by (simp add: CleanupTick)
  qed
qed

lemma admitted_then_quiet_not_blocked:
  assumes "fst (RateLimit ip tc now tb r) = Allowed" and "no_request_of ip evs" and "tc \<le> t"
    and "0 \<le> tc"
  shows "\<not> blocked_at (snd (rl_run (snd (RateLimit ip tc now tb r)) evs)) ip t"
proof -
  have "\<not> blocked_at (snd (RateLimit ip tc now tb r)) ip t"
    using assms(1,3,4)
    by (auto simp add: RateLimit_def Let_def blocked_at_def split: option.splits if_splits)
  then show ?thesis by (rule quiet_run_not_blocked[OF assms(2)])
qed

theorem RateLimit_blocks_after_limit_witness:
  "requests_by 3 three_requests
   \<and> limit scenario_limiter
       \<le> int (length (filter (admitted_after ''10.0.0.1'' (3 - window scenario_limiter))
                         (fst (rl_run scenario_limiter three_requests))))
   \<and> \<not> blocked_at (snd (rl_run scenario_limiter three_requests)) ''10.0.0.1'' 3
   \<and> events_before (3 + blockWindow scenario_limiter) during_block
   \<and> fst (RateLimit ''10.0.0.1'' 3 3 3 (snd (rl_run scenario_limiter three_requests))) = Blocked
   \<and> all_blocked ''10.0.0.1''
        (fst (rl_run (snd (RateLimit ''10.0.0.1'' 3 3 3
                             (snd (rl_run scenario_limiter three_requests))))
                during_block))"
proof -
  let ?r1 = "snd (rl_run scenario_limiter three_requests)"
  let ?lg = "fst (rl_run scenario_limiter three_requests)"
  let ?nxt = "RateLimit ''10.0.0.1'' 3 3 3 ?r1"
  have cfg: "limit scenario_limiter = 3" "window scenario_limiter = 60"
    "blockWindow scenario_limiter = 3600"
    by (simp_all add: scenario_limiter_def NewRateLimitMiddleware_def)
  have run: "rl_run scenario_limiter three_requests = (?lg, ?r1)" by simp
  have earlier: "requests_by 3 three_requests"
    by (simp add: requests_by_def three_requests_def)
  have admitted: "limit scenario_limiter
                    \<le> int (length (filter (admitted_after ''10.0.0.1''
                                              (3 - window scenario_limiter)) ?lg))"
    by (simp add: scenario_three_admitted cfg)
  have nxt: "?nxt = (fst ?nxt, snd ?nxt)" by simp
  have after: "rl_run (snd ?nxt) during_block
                 = (fst (rl_run (snd ?nxt) during_block), snd (rl_run (snd ?nxt) during_block))"
    by simp
  have nb: "\<not> blocked_at ?r1 ''10.0.0.1'' 3"
    by (simp add: scenario_three_admitted blocked_at_def)
  have during: "events_before (3 + blockWindow scenario_limiter) during_block"
    by (simp add: events_before_def during_block_def cfg)
  show ?thesis
    using RateLimit_blocks_after_limit [OF run earlier admitted nxt after]
      earlier admitted nb during
    by simp
qed

text \<open>
  Between the block and the next call of the client, the requests of the others
  and the ticks of the clean-up leave its record alone, or delete it.
\<close>

lemma quiet_run:
  assumes "no_request_of ip evs"
    and "case visitors r ip of None \<Rightarrow> True
         | Some v \<Rightarrow> BlockedUntil v \<le> b \<and> list_all (\<lambda>q. q \<le> t) (Requests v)"
  shows "case visitors (snd (rl_run r evs)) ip of None \<Rightarrow> True
         | Some v \<Rightarrow> BlockedUntil v \<le> b \<and> list_all (\<lambda>q. q \<le> t) (Requests v)"
  using assms
proof (induction evs arbitrary: r)
  case Nil
  then show ?case by simp
next
  case (Cons ev evs)
  have rest: "no_request_of ip evs" using Cons.prems(1) by (simp add: no_request_of_def)
  show ?case
  proof (cases ev)
    case (Request ip' tc now tb)
    have "ip' \<noteq> ip" using Cons.prems(1) by (simp add: no_request_of_def Request)
    then have "visitors (snd (RateLimit ip' tc now tb r)) ip = visitors r ip"
      by (rule RateLimit_other)
    then show ?thesis
      unfolding Request rl_run_Request using Cons.IH[OF rest] Cons.prems(2) by simp
  next
    case (CleanupTick now)
    have "case visitors (cleanupOldEntries now r) ip of None \<Rightarrow> True
          | Some v \<Rightarrow> BlockedUntil v \<le> b \<and> list_all (\<lambda>q. q \<le> t) (Requests v)"
      using Cons.prems(2) by (simp add: cleanupOldEntries_def split: option.splits)
    then show ?thesis using Cons.IH[OF rest] by (simp add: CleanupTick)
  qed
qed

text \<open>
  Claim C7, as amended: for a limiter whose block lasts at least as long as its
  window and whose limit is positive. A client that is not blocked and whose
  recorded requests are not later than the clock calls at \<open>now0\<close> and is blocked.
  It makes no request until the block has expired. Its next call is then
  allowed, and the only recorded request that counts toward the new window is
  that call: everything recorded before the block has been pruned.
\<close>

theorem RateLimit_resumes_after_block:
  assumes cfg: "window r \<le> blockWindow r" "0 < limit r"
    and past: "list_all (\<lambda>reqTime. reqTime \<le> now0) (requests_of r ip)"
    and unblocked: "\<not> blocked_at r ip tCheck0"
    and block: "RateLimit ip tCheck0 now0 tBlock0 r = (Blocked, r1)"
    and clock0: "now0 \<le> tBlock0"
    and quiet: "no_request_of ip mid"
    and run: "rl_run r1 mid = (lg, r2)"
    and expired: "tBlock0 + blockWindow r \<le> tCheck"
    and clock: "tCheck \<le> now"
  shows "fst (RateLimit ip tCheck now tBlock r2) = Allowed
       \<and> requests_of (snd (RateLimit ip tCheck now tBlock r2)) ip = [now]"
proof -
  let ?b = "tBlock0 + blockWindow r" and ?t = tBlock0
  have c1: "limit r1 = limit r" "window r1 = window r" "blockWindow r1 = blockWindow r"
    using RateLimit_config[of ip tCheck0 now0 tBlock0 r] block by simp_all
  have c2: "limit r2 = limit r" "window r2 = window r" "blockWindow r2 = blockWindow r"
    using rl_run_config[of r1 mid] run c1 by simp_all
  have j1: "case visitors r1 ip of None \<Rightarrow> True
            | Some v \<Rightarrow> BlockedUntil v \<le> ?b \<and> list_all (\<lambda>q. q \<le> ?t) (Requests v)"
    using block unblocked past clock0
    by (fastforce simp add: RateLimit_def Let_def blocked_at_def requests_of_def list_all_iff
        split: option.splits if_splits)
  have j2: "case visitors r2 ip of None \<Rightarrow> True
            | Some v \<Rightarrow> BlockedUntil v \<le> ?b \<and> list_all (\<lambda>q. q \<le> ?t) (Requests v)"
    using quiet_run[OF quiet j1] run by simp
  show ?thesis
  proof (cases "visitors r2 ip")
    case None
    then show ?thesis using cfg c2 by (simp add: RateLimit_def Let_def requests_of_def)
  next
    case (Some v)
    have bu: "BlockedUntil v \<le> ?b" and old: "list_all (\<lambda>q. q \<le> ?t) (Requests v)"
      using j2 Some by simp_all
    have nb: "\<not> tCheck < BlockedUntil v" using bu expired by simp
    have "\<not> now - window r2 < q" if "q \<in> set (Requests v)" for q
    proof -
      have "q \<le> tBlock0" using old that by (simp add: list_all_iff)
      then show ?thesis using expired clock cfg(1) c2 by simp
    qed
    then have stale: "filter (\<lambda>reqTime. now - window r2 < reqTime) (Requests v) = []"
      by (simp add: filter_empty_conv)
    show ?thesis
      using Some nb stale cfg c2 by (simp add: RateLimit_def Let_def requests_of_def)
  qed
qed


text \<open>
  Against claim C7 as stated: a limiter with limit 3, window 60 and a block of 1.
  The client is admitted at 0, 1 and 2 and blocked at 3, until 4. At 5 the block
  has expired and the client has made no request in between, yet it is blocked
  again: the three requests made before the block are still inside the window
  and count.
\<close>

lemma short_block_three_admitted:
  "snd (rl_run short_block_limiter three_requests) =
     short_block_limiter\<lparr>visitors :=
        [''10.0.0.1'' \<mapsto> \<lparr>Requests = [0, 1, 2], BlockedUntil = 0\<rparr>]\<rparr>"
  by (simp add: short_block_limiter_def three_requests_def NewRateLimitMiddleware_def
      RateLimit_def Let_def)

theorem RateLimit_short_block_stays_blocked:
  "fst (RateLimit ''10.0.0.1'' 3 3 3 (snd (rl_run short_block_limiter three_requests))) = Blocked
   \<and> \<not> blocked_at
         (snd (RateLimit ''10.0.0.1'' 3 3 3 (snd (rl_run short_block_limiter three_requests))))
         ''10.0.0.1'' 5
   \<and> fst (RateLimit ''10.0.0.1'' 5 5 5
            (snd (RateLimit ''10.0.0.1'' 3 3 3 (snd (rl_run short_block_limiter three_requests)))))
       = Blocked"
  unfolding short_block_three_admitted
  by (simp add: short_block_limiter_def NewRateLimitMiddleware_def RateLimit_def Let_def
      blocked_at_def)

theorem RateLimit_resumes_after_block_witness:
  "window scenario_limiter \<le> blockWindow scenario_limiter \<and> 0 < limit scenario_limiter
   \<and> fst (RateLimit ''10.0.0.1'' 3 3 3 (snd (rl_run scenario_limiter three_requests))) = Blocked
   \<and> no_request_of ''10.0.0.1'' other_traffic
   \<and> fst (RateLimit ''10.0.0.1'' 3603 3603 3603
            (snd (rl_run (snd (RateLimit ''10.0.0.1'' 3 3 3
                                 (snd (rl_run scenario_limiter three_requests))))
                    other_traffic))) = Allowed
   \<and> requests_of
         (snd (RateLimit ''10.0.0.1'' 3603 3603 3603
                 (snd (rl_run (snd (RateLimit ''10.0.0.1'' 3 3 3
                                      (snd (rl_run scenario_limiter three_requests))))
                         other_traffic)))) ''10.0.0.1'' = [3603]"
proof -
  let ?r = "snd (rl_run scenario_limiter three_requests)"
  let ?blk = "RateLimit ''10.0.0.1'' 3 3 3 ?r"
  let ?mid = "rl_run (snd ?blk) other_traffic"
  have cfg: "limit scenario_limiter = 3" "window scenario_limiter = 60"
    "blockWindow scenario_limiter = 3600"
    by (simp_all add: scenario_limiter_def NewRateLimitMiddleware_def)
  have rc: "limit ?r = 3" "window ?r = 60" "blockWindow ?r = 3600"
    using rl_run_config[of scenario_limiter three_requests] cfg by simp_all
  have c1: "window ?r \<le> blockWindow ?r" and c2: "0 < limit ?r" using rc by simp_all
  have past: "list_all (\<lambda>reqTime. reqTime \<le> 3) (requests_of ?r ''10.0.0.1'')"
    by (simp add: scenario_three_admitted requests_of_def)
  have unblocked: "\<not> blocked_at ?r ''10.0.0.1'' 3"
    by (simp add: scenario_three_admitted blocked_at_def)
  have d: "fst ?blk = Blocked"
    by (simp add: scenario_three_admitted RateLimit_def Let_def cfg)
  then have block: "?blk = (Blocked, snd ?blk)" by (metis prod.collapse)
  have clock0: "(3::int) \<le> 3" by simp
  have quiet: "no_request_of ''10.0.0.1'' other_traffic"
    by (simp add: no_request_of_def other_traffic_def)
  have run: "?mid = (fst ?mid, snd ?mid)" by simp
  have expired: "3 + blockWindow ?r \<le> 3603" using rc by simp
  have clock: "(3603::int) \<le> 3603" by simp
  show ?thesis
    using RateLimit_resumes_after_block
            [OF c1 c2 past unblocked block clock0 quiet run expired clock, of 3603]
      cfg d quiet
    by simp
qed

section \<open>Readiness\<close>



section \<open>Image-source resolution at the entry points\<close>

text \<open>
  A single scan and a detect call that pass the model check and name no image
  source fail with \<open>MissingImageSource\<close>, wrapped by the caller; a batch item
  that names none is dropped (\<open>ScanBatch_item_no_source\<close>).
\<close>

lemma ScanImage_missing_source:
  assumes "Model req \<in> set (GetLoadedModels s)"
    and "ImageBase64 req = []" and "ImageURL req = []"
  shows "fst (ScanImage e req s) = Return (Inl (FailedToGetImageData MissingImageSource))"
  using assms
  by (simp add: ScanImage_unfold ScanImage_body_def list_ex_iff getImageData_def
      GetLoadedModels_def)

lemma DetectImage_missing_source:
  assumes "Model req \<in> set (GetLoadedModels s)" and "supports_detection (Model req)"
    and "ImageBase64 req = []" and "ImageURL req = []"
  shows "fst (DetectImage e req s) = Inl (FailedToGetImageData MissingImageSource)"
  using assms
  by (auto simp add: DetectImage_def DetectImage_body_def list_ex_iff getImageData_def
      GetLoadedModels_def time_Now_def log_event_def split: prod.splits)

end
